theory Spec2Isabelle
  imports Main
begin

section \<open>The debugger's object representations (werkzeug/debug/repr.py)\<close>

text \<open>
  The module renders arbitrary Python values as HTML. The values are objects on a heap:
  a reference is an address, and \<open>is\<close> compares addresses. An object is described
  by what the operations the module applies to it answer: its type and base classes, the
  names of its class, the outcome of \<open>repr(obj)\<close>, of iterating it, of
  \<open>obj.items()\<close>, of \<open>dir(obj)\<close> and of \<open>getattr(obj, name)\<close>. Each of them
  can raise, since a value's own methods run.
\<close>

subsection \<open>Exceptions and results\<close>

text \<open>
  An exception is caught by \<open>except Exception\<close> when its class derives from
  \<open>Exception\<close>; \<open>KeyboardInterrupt\<close>, \<open>SystemExit\<close> and
  \<open>GeneratorExit\<close> derive from \<open>BaseException\<close> only.
  \<open>format_exception_only\<close> is what \<open>traceback.format_exception_only\<close>
  answers for the exception: a list of lines, or an exception of its own.
\<close>

datatype pyexc = PyExc (is_Exception: bool) (format_exception_only: "pyexc + string list")

type_synonym 'a result = "pyexc + 'a"

definition newline :: char where
  "newline = CHR 0x0A"

definition IndexError :: pyexc where
  "IndexError = PyExc True (Inr [''IndexError: string index out of range'' @ [newline]])"

definition AttributeError :: "string \<Rightarrow> pyexc" where
  "AttributeError tp = PyExc True
     (Inr [''AttributeError: '' @ [CHR 0x27] @ tp @ [CHR 0x27]
           @ '' object has no attribute '' @ [CHR 0x27] @ ''replace'' @ [CHR 0x27] @ [newline]])"

definition TypeError :: pyexc where
  "TypeError = PyExc True
     (Inr [''TypeError: a bytes-like object is required, not '' @ [CHR 0x27] @ ''str''
           @ [CHR 0x27] @ [newline]])"

subsection \<open>Objects and the heap\<close>

type_synonym addr = nat

datatype pytype =
    T_int | T_float | T_complex | T_str | T_bytes | T_Regex
  | T_list | T_tuple | T_set | T_frozenset | T_dict | T_deque
  | T_class nat

record pyobj =
  py_type :: pytype
  py_bases :: "pytype list"
  py_name :: string
  py_module :: string
  py_repr :: "string result"
  py_object_repr :: string
  py_str :: string
  py_pattern_repr :: string
  py_iter :: "addr list \<times> pyexc option"
  py_items :: "(addr \<times> addr) list \<times> pyexc option"
  py_dir :: "string list result"
  py_getattr :: "string \<Rightarrow> addr result"
  py_escape :: "string result option"

text \<open>
  \<^item> \<open>py_type\<close> is \<open>type(obj)\<close>, \<open>py_bases\<close> the proper base classes of it;
  \<^item> \<open>py_name\<close> is \<open>type(obj).__name__\<close>, \<open>py_module\<close> is
    \<open>obj.__class__.__module__\<close>;
  \<^item> \<open>py_repr\<close> is the outcome of the builtin \<open>repr(obj)\<close>, \<open>py_object_repr\<close>
    is \<open>object.__repr__(obj)\<close>;
  \<^item> \<open>py_str\<close> holds the characters of a \<open>str\<close>, \<open>py_pattern_repr\<close> is
    \<open>repr(obj.pattern)\<close> of a compiled regular expression;
  \<^item> \<open>py_iter\<close> is the iteration of the object: the items it yields, then the exception
    that ends it, if one does; \<open>py_items\<close> is the same for \<open>obj.items()\<close>;
  \<^item> \<open>py_dir\<close> is the outcome of \<open>dir(obj)\<close>, \<open>py_getattr\<close> of
    \<open>getattr(obj, name)\<close>;
  \<^item> \<open>py_escape\<close> is \<open>None\<close> for an object without an attribute
    \<open>replace\<close>, and otherwise the outcome of \<open>html.escape(obj)\<close>, which calls
    \<open>obj.replace\<close>, as a row of a dump shows it.
\<close>

type_synonym heap = "addr \<Rightarrow> pyobj"

definition isinstance :: "pyobj \<Rightarrow> pytype \<Rightarrow> bool" where
  "isinstance obj t = (py_type obj = t \<or> t \<in> set (py_bases obj))"

text \<open>The module's global \<open>helper = _Helper()\<close> is one object, at a fixed address.\<close>

definition helper :: addr where
  "helper = 0"

definition helper_repr :: string where
  "helper_repr = ''Type help(object) for help about object.''"

subsection \<open>Library functions of strings\<close>

text \<open>
  \<open>html.escape(s)\<close> with \<open>quote=True\<close>: it replaces \<open>&\<close> first, then
  \<open><\<close>, \<open>>\<close>, the double and the single quote, which is this replacement
  character by character.
\<close>

definition escape_char :: "char \<Rightarrow> string" where
  "escape_char c =
     (if c = CHR ''&'' then ''&amp;''
      else if c = CHR ''<'' then ''&lt;''
      else if c = CHR ''>'' then ''&gt;''
      else if c = CHR 0x22 then ''&quot;''
      else if c = CHR 0x27 then ''&#x27;''
      else [c])"

definition escape :: "string \<Rightarrow> string" where
  "escape s = concat (map escape_char s)"

text \<open>\<open>sep.join(parts)\<close>.\<close>

fun join :: "string \<Rightarrow> string list \<Rightarrow> string" where
  "join sep [] = []"
| "join sep [x] = x"
| "join sep (x # y # ys) = x @ sep @ join sep (y # ys)"

text \<open>The slices \<open>r[:k]\<close> and \<open>r[k:]\<close>; a negative \<open>k\<close> counts from the end.\<close>

definition slice_to :: "string \<Rightarrow> int \<Rightarrow> string" where
  "slice_to r k = (if k < 0 then take (nat (int (length r) + k)) r else take (nat k) r)"

definition slice_from :: "string \<Rightarrow> int \<Rightarrow> string" where
  "slice_from r k = (if k < 0 then drop (nat (int (length r) + k)) r else drop (nat k) r)"

text \<open>\<open>s.strip()\<close>: whitespace is removed at both ends.\<close>

definition is_space :: "char \<Rightarrow> bool" where
  "is_space c = (let n = of_char c :: nat in
     (9 \<le> n \<and> n \<le> 13) \<or> (28 \<le> n \<and> n \<le> 32) \<or> n = 133 \<or> n = 160)"

definition strip :: "string \<Rightarrow> string" where
  "strip s = rev (dropWhile is_space (rev (dropWhile is_space s)))"

subsection \<open>Subclass annotation\<close>

text \<open>The \<open>base\<close> argument is one type or a tuple of types.\<close>

datatype base = Base pytype | Bases "pytype list"

fun is_one_of :: "pytype \<Rightarrow> pytype list \<Rightarrow> bool" where
  "is_one_of t [] = False"
| "is_one_of t (b # bs) = (if t = b then True else is_one_of t bs)"

definition annotation :: "string \<Rightarrow> pyobj \<Rightarrow> string" where
  \<open>annotation inner obj =
     (let module = [];
          module = (if py_module obj \<noteq> ''__builtin__'' \<and> py_module obj \<noteq> ''exceptions''
                    then ''<span class="module">'' @ py_module obj @ ''.</span>''
                    else module)
      in module @ py_name obj @ ''('' @ inner @ '')'')\<close>

fun add_subclass_info :: "string \<Rightarrow> pyobj \<Rightarrow> base \<Rightarrow> string" where
  "add_subclass_info inner obj (Bases bs) =
     (if is_one_of (py_type obj) bs then inner else annotation inner obj)"
| "add_subclass_info inner obj (Base b) =
     (if py_type obj = b then inner else annotation inner obj)"

subsection \<open>The renderers that read one object\<close>

definition regex_repr :: "(string \<Rightarrow> string) \<Rightarrow> pyobj \<Rightarrow> string" where
  \<open>regex_repr decode obj =
     (let pattern = py_pattern_repr obj;
          pattern = decode pattern;
          pattern = ''r'' @ pattern
      in ''re.compile(<span class="string regex">'' @ pattern @ ''</span>)'')\<close>

definition is_quote :: "char \<Rightarrow> bool" where
  "is_quote c = (c = CHR 0x27 \<or> c = CHR 0x22)"

definition looks_standard :: "string \<Rightarrow> bool result" where
  "looks_standard r =
     (case r of
        [] \<Rightarrow> Inl IndexError
      | c # cs \<Rightarrow>
          if is_quote c then Inr True
          else if c = CHR ''b'' then
            (case cs of [] \<Rightarrow> Inl IndexError | d # ds \<Rightarrow> Inr (is_quote d))
          else Inr False)"

definition string_repr :: "pyobj \<Rightarrow> int \<Rightarrow> string result" where
  \<open>string_repr obj limit =
     (case py_repr obj of
        Inl e \<Rightarrow> Inl e
      | Inr r \<Rightarrow>
          let buf = [''<span class="string">''];
              buf = (if int (length r) - limit > 2
                     then buf @ [escape (slice_to r limit), ''<span class="extended">'',
                                 escape (slice_from r limit), ''</span>'']
                     else buf @ [escape r]);
              buf = buf @ [''</span>''];
              out = concat buf
          in (case looks_standard r of
                Inl e \<Rightarrow> Inl e
              | Inr True \<Rightarrow> Inr (add_subclass_info out obj (Bases [T_bytes, T_str]))
              | Inr False \<Rightarrow> Inr out))\<close>

definition object_repr :: "pyobj \<Rightarrow> string result" where
  \<open>object_repr obj =
     (case py_repr obj of
        Inl e \<Rightarrow> Inl e
      | Inr r \<Rightarrow> Inr (''<span class="object">'' @ escape r @ ''</span>''))\<close>

definition fallback_repr :: "pyexc \<Rightarrow> string result" where
  \<open>fallback_repr exc_info =
     (case (case format_exception_only exc_info of
              Inr lines \<Rightarrow> Inr (concat lines)
            | Inl e \<Rightarrow> if is_Exception e then Inr ''?'' else Inl e) of
        Inl e \<Rightarrow> Inl e
      | Inr info \<Rightarrow>
          Inr (''<span class="brokenrepr">'' @ ''&lt;broken repr ('' @ escape (strip info)
               @ '')&gt;</span>''))\<close>

subsection \<open>The generator and its stack\<close>

text \<open>
  \<open>DebugReprGenerator\<close> has one attribute, \<open>_stack\<close>: the list of the objects whose
  rendering is under way. A method takes the stack and returns the stack it leaves with
  what it returned or raised. The methods call \<open>self.repr\<close>, which is the parameter
  \<open>self_repr\<close> here; \<open>None\<close> is a rendering cut off by the bound on nesting that
  \<open>repr\<close> below takes.
\<close>

type_synonym stack = "addr list"

type_synonym 'a run = "(stack \<times> 'a result) option"

definition init :: stack where
  "init = []"

fun sequence_loop ::
  "(stack \<Rightarrow> addr \<Rightarrow> string run) \<Rightarrow> int \<Rightarrow> nat \<Rightarrow> stack \<Rightarrow> addr list \<Rightarrow> string list \<Rightarrow> bool
     \<Rightarrow> (string list \<times> bool) run" where
  \<open>sequence_loop self_repr limit idx stack [] buf have_extended_section =
     Some (stack, Inr (buf, have_extended_section))\<close>
| \<open>sequence_loop self_repr limit idx stack (item # rest) buf have_extended_section =
     (let buf = (if idx \<noteq> 0 then buf @ ['', ''] else buf);
          buf' = (if int idx = limit then buf @ [''<span class="extended">''] else buf);
          ext = (if int idx = limit then True else have_extended_section)
      in case self_repr stack item of
           None \<Rightarrow> None
         | Some (stack', Inl e) \<Rightarrow> Some (stack', Inl e)
         | Some (stack', Inr frag) \<Rightarrow>
             sequence_loop self_repr limit (Suc idx) stack' rest (buf' @ [frag]) ext)\<close>

definition sequence_repr_maker ::
  "string \<Rightarrow> string \<Rightarrow> base \<Rightarrow> int \<Rightarrow> (stack \<Rightarrow> addr \<Rightarrow> string run) \<Rightarrow> heap \<Rightarrow> stack \<Rightarrow> addr
     \<Rightarrow> bool \<Rightarrow> string run" where
  \<open>sequence_repr_maker left right base limit self_repr h stack a recursive =
     (let obj = h a in
      if recursive then Some (stack, Inr (add_subclass_info (left @ ''...'' @ right) obj base))
      else
        case sequence_loop self_repr limit 0 stack (fst (py_iter obj)) [left] False of
          None \<Rightarrow> None
        | Some (stack', Inl e) \<Rightarrow> Some (stack', Inl e)
        | Some (stack', Inr (buf, have_extended_section)) \<Rightarrow>
            (case snd (py_iter obj) of
               Some e \<Rightarrow> Some (stack', Inl e)
             | None \<Rightarrow>
                 let buf = (if have_extended_section then buf @ [''</span>''] else buf);
                     buf = buf @ [right]
                 in Some (stack', Inr (add_subclass_info (concat buf) obj base))))\<close>

definition list_repr :: "(stack \<Rightarrow> addr \<Rightarrow> string run) \<Rightarrow> heap \<Rightarrow> stack \<Rightarrow> addr \<Rightarrow> bool \<Rightarrow> string run" where
  "list_repr = sequence_repr_maker ''['' '']'' (Base T_list) 8"

definition tuple_repr :: "(stack \<Rightarrow> addr \<Rightarrow> string run) \<Rightarrow> heap \<Rightarrow> stack \<Rightarrow> addr \<Rightarrow> bool \<Rightarrow> string run" where
  "tuple_repr = sequence_repr_maker ''('' '')'' (Base T_tuple) 8"

definition set_repr :: "(stack \<Rightarrow> addr \<Rightarrow> string run) \<Rightarrow> heap \<Rightarrow> stack \<Rightarrow> addr \<Rightarrow> bool \<Rightarrow> string run" where
  "set_repr = sequence_repr_maker ''set(['' ''])'' (Base T_set) 8"

definition frozenset_repr :: "(stack \<Rightarrow> addr \<Rightarrow> string run) \<Rightarrow> heap \<Rightarrow> stack \<Rightarrow> addr \<Rightarrow> bool \<Rightarrow> string run" where
  "frozenset_repr = sequence_repr_maker ''frozenset(['' ''])'' (Base T_frozenset) 8"

definition deque_repr :: "(stack \<Rightarrow> addr \<Rightarrow> string run) \<Rightarrow> heap \<Rightarrow> stack \<Rightarrow> addr \<Rightarrow> bool \<Rightarrow> string run" where
  \<open>deque_repr =
     sequence_repr_maker ''<span class="module">collections.</span>deque(['' ''])'' (Base T_deque) 8\<close>

fun dict_loop ::
  "(stack \<Rightarrow> addr \<Rightarrow> string run) \<Rightarrow> int \<Rightarrow> nat \<Rightarrow> stack \<Rightarrow> (addr \<times> addr) list \<Rightarrow> string list \<Rightarrow> bool
     \<Rightarrow> (string list \<times> bool) run" where
  \<open>dict_loop self_repr limit idx stack [] buf have_extended_section =
     Some (stack, Inr (buf, have_extended_section))\<close>
| \<open>dict_loop self_repr limit idx stack ((key, val) # rest) buf have_extended_section =
     (let buf = (if idx \<noteq> 0 then buf @ ['', ''] else buf);
          buf' = (if int idx = limit - 1 then buf @ [''<span class="extended">''] else buf);
          ext = (if int idx = limit - 1 then True else have_extended_section)
      in case self_repr stack key of
           None \<Rightarrow> None
         | Some (stack1, Inl e) \<Rightarrow> Some (stack1, Inl e)
         | Some (stack1, Inr kfrag) \<Rightarrow>
             (case self_repr stack1 val of
                None \<Rightarrow> None
              | Some (stack2, Inl e) \<Rightarrow> Some (stack2, Inl e)
              | Some (stack2, Inr vfrag) \<Rightarrow>
                  dict_loop self_repr limit (Suc idx) stack2 rest
                    (buf' @ [''<span class="pair"><span class="key">'' @ kfrag @ ''</span>:''
                             @ '' <span class="value">'' @ vfrag @ ''</span></span>''])
                    ext))\<close>

definition dict_repr ::
  "(stack \<Rightarrow> addr \<Rightarrow> string run) \<Rightarrow> heap \<Rightarrow> stack \<Rightarrow> addr \<Rightarrow> bool \<Rightarrow> int \<Rightarrow> string run" where
  \<open>dict_repr self_repr h stack a recursive limit =
     (let d = h a in
      if recursive then Some (stack, Inr (add_subclass_info ''{...}'' d (Base T_dict)))
      else
        case dict_loop self_repr limit 0 stack (fst (py_items d)) [''{''] False of
          None \<Rightarrow> None
        | Some (stack', Inl e) \<Rightarrow> Some (stack', Inl e)
        | Some (stack', Inr (buf, have_extended_section)) \<Rightarrow>
            (case snd (py_items d) of
               Some e \<Rightarrow> Some (stack', Inl e)
             | None \<Rightarrow>
                 let buf = (if have_extended_section then buf @ [''</span>''] else buf);
                     buf = buf @ [''}'']
                 in Some (stack', Inr (add_subclass_info (concat buf) d (Base T_dict)))))\<close>

definition number_repr :: "pyobj \<Rightarrow> string result" where
  \<open>number_repr obj =
     (case py_repr obj of
        Inl e \<Rightarrow> Inl e
      | Inr r \<Rightarrow> Inr (''<span class="number">'' @ r @ ''</span>''))\<close>

definition dispatch_repr ::
  "(string \<Rightarrow> string) \<Rightarrow> (stack \<Rightarrow> addr \<Rightarrow> string run) \<Rightarrow> heap \<Rightarrow> stack \<Rightarrow> addr \<Rightarrow> bool
     \<Rightarrow> string run" where
  \<open>dispatch_repr decode self_repr h stack a recursive =
     (let obj = h a in
      if a = helper then Some (stack, Inr (''<span class="help">'' @ helper_repr @ ''</span>''))
      else if isinstance obj T_int \<or> isinstance obj T_float \<or> isinstance obj T_complex
        then Some (stack, number_repr obj)
      else if isinstance obj T_str \<or> isinstance obj T_bytes
        then Some (stack, string_repr obj 70)
      else if isinstance obj T_Regex then Some (stack, Inr (regex_repr decode obj))
      else if isinstance obj T_list then list_repr self_repr h stack a recursive
      else if isinstance obj T_tuple then tuple_repr self_repr h stack a recursive
      else if isinstance obj T_set then set_repr self_repr h stack a recursive
      else if isinstance obj T_frozenset then frozenset_repr self_repr h stack a recursive
      else if isinstance obj T_dict then dict_repr self_repr h stack a recursive 5
      else if isinstance obj T_deque then deque_repr self_repr h stack a recursive
      else Some (stack, object_repr obj))\<close>

text \<open>The search of the stack: \<open>for item in self._stack: if item is obj: ...\<close>.\<close>

fun on_stack :: "stack \<Rightarrow> addr \<Rightarrow> bool" where
  "on_stack [] obj = False"
| "on_stack (item # rest) obj = (if item = obj then True else on_stack rest obj)"

text \<open>
  The body of \<open>repr\<close>, for any method \<open>dispatch_repr\<close> that the generator
  has: the search of the stack, the \<open>append\<close>, the call of
  \<open>self.dispatch_repr(obj, recursive)\<close> inside the two \<open>try\<close> statements, and
  the \<open>pop\<close> of the \<open>finally\<close> clause.
\<close>

definition repr_call ::
  "(stack \<Rightarrow> addr \<Rightarrow> bool \<Rightarrow> string run) \<Rightarrow> stack \<Rightarrow> addr \<Rightarrow> string run" where
  "repr_call dispatch stack a =
     (let recursive = on_stack stack a;
          stack = stack @ [a]
      in case dispatch stack a recursive of
           None \<Rightarrow> None
         | Some (stack', Inr frag) \<Rightarrow> Some (butlast stack', Inr frag)
         | Some (stack', Inl e) \<Rightarrow>
             if is_Exception e then Some (butlast stack', fallback_repr e)
             else Some (butlast stack', Inl e))"

text \<open>
  \<open>repr\<close> with the \<open>dispatch_repr\<close> of the class, whose nested calls are calls
  of \<open>repr\<close> again: the first argument bounds the nesting of the calls (the
  interpreter's own bound is its recursion limit); with \<open>0\<close> no call is left.
  \<open>append\<close> adds at the end of the stack and \<open>pop\<close> removes the last entry; the
  \<open>finally\<close> clause pops whatever happened before it.
\<close>

primrec repr :: "nat \<Rightarrow> (string \<Rightarrow> string) \<Rightarrow> heap \<Rightarrow> stack \<Rightarrow> addr \<Rightarrow> string run" where
  "repr 0 decode h stack a = None"
| "repr (Suc n) decode h stack a =
     (let recursive = on_stack stack a;
          stack = stack @ [a]
      in case dispatch_repr decode (repr n decode h) h stack a recursive of
           None \<Rightarrow> None
         | Some (stack', Inr frag) \<Rightarrow> Some (butlast stack', Inr frag)
         | Some (stack', Inl e) \<Rightarrow>
             if is_Exception e then Some (butlast stack', fallback_repr e)
             else Some (butlast stack', Inl e))"

text \<open>\<open>debug_repr(obj)\<close> is \<open>DebugReprGenerator().repr(obj)\<close>.\<close>

definition debug_repr :: "nat \<Rightarrow> (string \<Rightarrow> string) \<Rightarrow> heap \<Rightarrow> addr \<Rightarrow> string run" where
  "debug_repr n decode h a = repr n decode h init a"

subsection \<open>Object dumps\<close>

text \<open>
  A row of a dump is a key with a fragment. The key is an object of the heap (a key of a
  mapping) or a name that \<open>dir\<close> gave. \<open>escape(key)\<close> calls \<open>key.replace\<close>:
  a \<open>str\<close> answers; \<open>bytes.replace\<close> refuses the \<open>str\<close> arguments; any other
  object answers as its own \<open>replace\<close> does, and one that has no such attribute
  raises an \<open>AttributeError\<close>.
\<close>

datatype key = Name string | Ref addr

definition escape_key :: "heap \<Rightarrow> key \<Rightarrow> string result" where
  "escape_key h k =
     (case k of
        Name s \<Rightarrow> Inr (escape s)
      | Ref a \<Rightarrow>
          if isinstance (h a) T_str then Inr (escape (py_str (h a)))
          else if isinstance (h a) T_bytes then Inl TypeError
          else (case py_escape (h a) of
                  None \<Rightarrow> Inl (AttributeError (py_name (h a)))
                | Some r \<Rightarrow> r))"

definition OBJECT_DUMP_HTML :: "string \<Rightarrow> string \<Rightarrow> string \<Rightarrow> string" where
  \<open>OBJECT_DUMP_HTML title repr' items =
     ''<div class=box>'' @ [newline]
     @ ''  <h3>'' @ title @ ''</h3>'' @ [newline]
     @ ''  '' @ repr' @ [newline]
     @ ''  <table>'' @ items @ ''</table>'' @ [newline]
     @ ''</div>''\<close>

fun html_items_loop :: "heap \<Rightarrow> (key \<times> string) list \<Rightarrow> string list \<Rightarrow> string list result" where
  "html_items_loop h [] html_items = Inr html_items"
| "html_items_loop h ((key, val) # rest) html_items =
     (case escape_key h key of
        Inl e \<Rightarrow> Inl e
      | Inr k \<Rightarrow>
          html_items_loop h rest
            (html_items @ [''<tr><th>'' @ k @ ''<td><pre class=repr>'' @ val @ ''</pre>'']))"

definition render_object_dump ::
  "heap \<Rightarrow> (key \<times> string) list \<Rightarrow> string \<Rightarrow> string option \<Rightarrow> string result" where
  "render_object_dump h items title repr' =
     (case html_items_loop h items [] of
        Inl e \<Rightarrow> Inl e
      | Inr html_items \<Rightarrow>
          let html_items = (if html_items = [] then html_items @ [''<tr><td><em>Nothing</em>'']
                            else html_items)
          in Inr (OBJECT_DUMP_HTML (escape title)
                    (''<pre class=repr>''
                     @ (case repr' of None \<Rightarrow> [] | Some r \<Rightarrow> if r \<noteq> [] then r else [])
                     @ ''</pre>'')
                    (join [newline] html_items)))"

text \<open>
  The first loop of \<open>dump_object\<close>; it answers \<open>None\<close> for the items when a key is
  not a \<open>str\<close> (\<open>items = None; break\<close>).
\<close>

fun contents_loop ::
  "(stack \<Rightarrow> addr \<Rightarrow> string run) \<Rightarrow> heap \<Rightarrow> stack \<Rightarrow> (addr \<times> addr) list \<Rightarrow> (key \<times> string) list
     \<Rightarrow> (key \<times> string) list option run" where
  "contents_loop self_repr h stack [] items = Some (stack, Inr (Some items))"
| "contents_loop self_repr h stack ((key, val) # rest) items =
     (if \<not> isinstance (h key) T_str then Some (stack, Inr None)
      else
        case self_repr stack val of
          None \<Rightarrow> None
        | Some (stack', Inl e) \<Rightarrow> Some (stack', Inl e)
        | Some (stack', Inr frag) \<Rightarrow>
            contents_loop self_repr h stack' rest (items @ [(Ref key, frag)]))"

text \<open>The second loop: an attribute whose reading or rendering raises is passed over.\<close>

fun details_loop ::
  "(stack \<Rightarrow> addr \<Rightarrow> string run) \<Rightarrow> pyobj \<Rightarrow> stack \<Rightarrow> string list \<Rightarrow> (key \<times> string) list
     \<Rightarrow> (key \<times> string) list run" where
  "details_loop self_repr obj stack [] items = Some (stack, Inr items)"
| "details_loop self_repr obj stack (key # rest) items =
     (case py_getattr obj key of
        Inl e \<Rightarrow>
          if is_Exception e then details_loop self_repr obj stack rest items
          else Some (stack, Inl e)
      | Inr v \<Rightarrow>
          (case self_repr stack v of
             None \<Rightarrow> None
           | Some (stack', Inl e) \<Rightarrow>
               if is_Exception e then details_loop self_repr obj stack' rest items
               else Some (stack', Inl e)
           | Some (stack', Inr frag) \<Rightarrow>
               details_loop self_repr obj stack' rest (items @ [(Name key, frag)])))"

text \<open>\<open>object.__repr__(obj)[1:-1]\<close>.\<close>

definition descriptor :: "pyobj \<Rightarrow> string" where
  "descriptor obj = butlast (tl (py_object_repr obj))"

definition dump_object :: "(stack \<Rightarrow> addr \<Rightarrow> string run) \<Rightarrow> heap \<Rightarrow> stack \<Rightarrow> addr \<Rightarrow> string run" where
  "dump_object self_repr h stack a =
     (let obj = h a in
      case (if isinstance obj T_dict then
              (case contents_loop self_repr h stack (fst (py_items obj)) [] of
                 None \<Rightarrow> None
               | Some (stack', Inl e) \<Rightarrow> Some (stack', Inl e)
               | Some (stack', Inr None) \<Rightarrow> Some (stack', Inr None)
               | Some (stack', Inr (Some items)) \<Rightarrow>
                   (case snd (py_items obj) of
                      Some e \<Rightarrow> Some (stack', Inl e)
                    | None \<Rightarrow> Some (stack', Inr (Some items))))
            else Some (stack, Inr None)) of
        None \<Rightarrow> None
      | Some (stack1, Inl e) \<Rightarrow> Some (stack1, Inl e)
      | Some (stack1, Inr (Some items)) \<Rightarrow>
          Some (stack1,
            render_object_dump h items (''Contents of'' @ '' '' @ descriptor obj) None)
      | Some (stack1, Inr None) \<Rightarrow>
          (case self_repr stack1 a of
             None \<Rightarrow> None
           | Some (stack2, Inl e) \<Rightarrow> Some (stack2, Inl e)
           | Some (stack2, Inr repr') \<Rightarrow>
               (case py_dir obj of
                  Inl e \<Rightarrow> Some (stack2, Inl e)
                | Inr names \<Rightarrow>
                    (case details_loop self_repr obj stack2 names [] of
                       None \<Rightarrow> None
                     | Some (stack3, Inl e) \<Rightarrow> Some (stack3, Inl e)
                     | Some (stack3, Inr items) \<Rightarrow>
                         Some (stack3,
                           render_object_dump h items
                             (''Details for'' @ '' '' @ descriptor obj) (Some repr'))))))"

fun locals_loop ::
  "(stack \<Rightarrow> addr \<Rightarrow> string run) \<Rightarrow> stack \<Rightarrow> (addr \<times> addr) list \<Rightarrow> (key \<times> string) list
     \<Rightarrow> (key \<times> string) list run" where
  "locals_loop self_repr stack [] items = Some (stack, Inr items)"
| "locals_loop self_repr stack ((key, val) # rest) items =
     (case self_repr stack val of
        None \<Rightarrow> None
      | Some (stack', Inl e) \<Rightarrow> Some (stack', Inl e)
      | Some (stack', Inr frag) \<Rightarrow> locals_loop self_repr stack' rest (items @ [(Ref key, frag)]))"

definition dump_locals :: "(stack \<Rightarrow> addr \<Rightarrow> string run) \<Rightarrow> heap \<Rightarrow> stack \<Rightarrow> addr \<Rightarrow> string run" where
  "dump_locals self_repr h stack a =
     (let d = h a in
      case locals_loop self_repr stack (fst (py_items d)) [] of
        None \<Rightarrow> None
      | Some (stack', Inl e) \<Rightarrow> Some (stack', Inl e)
      | Some (stack', Inr items) \<Rightarrow>
          (case snd (py_items d) of
             Some e \<Rightarrow> Some (stack', Inl e)
           | None \<Rightarrow>
               Some (stack', render_object_dump h items ''Local variables in frame'' None)))"

section \<open>Notions the properties are stated with\<close>

text \<open>A method keeps the stack when it leaves the stack it found, however it ends.\<close>

definition keeps_stack :: "(stack \<Rightarrow> addr \<Rightarrow> 'a run) \<Rightarrow> bool" where
  "keeps_stack f = (\<forall>stack a stack' r. f stack a = Some (stack', r) \<longrightarrow> stack' = stack)"

text \<open>
  What the \<open>try\<close> statement of \<open>repr\<close> makes of the outcome of the dispatch: a
  fragment is returned, an exception that derives from \<open>Exception\<close> is replaced by
  the fragment of \<open>fallback_repr\<close>, any other exception goes on.
\<close>

definition caught :: "string result \<Rightarrow> string result" where
  "caught r =
     (case r of
        Inr frag \<Rightarrow> Inr frag
      | Inl e \<Rightarrow> if is_Exception e then fallback_repr e else Inl e)"

text \<open>A method \<open>repr\<close> that answers on the stack \<open>s\<close> and on no other.\<close>

definition only_on ::
  "stack \<Rightarrow> (stack \<Rightarrow> addr \<Rightarrow> string run) \<Rightarrow> stack \<Rightarrow> addr \<Rightarrow> string run" where
  "only_on s f s' x = (if s' = s then f s' x else None)"

text \<open>
  The fragments of the elements of a container, joined by commas: the first \<open>k\<close>, and
  the others, when there are others, inside one wrapper of class \<open>extended\<close>.
\<close>

definition collapsed :: "nat \<Rightarrow> string list \<Rightarrow> string" where
  \<open>collapsed k frags =
     (if length frags \<le> k then join '', '' frags
      else join '', '' (take k frags) @ (if k = 0 then [] else '', '')
           @ ''<span class="extended">'' @ join '', '' (drop k frags) @ ''</span>'')\<close>

definition pair_fragment :: "string \<Rightarrow> string \<Rightarrow> string" where
  \<open>pair_fragment kfrag vfrag =
     ''<span class="pair"><span class="key">'' @ kfrag @ ''</span>: <span class="value">''
     @ vfrag @ ''</span></span>''\<close>

text \<open>What one round of the loops appends to the buffer, and whether the wrapper was opened.\<close>

definition piece :: "int \<Rightarrow> nat \<Rightarrow> string \<Rightarrow> string list" where
  \<open>piece at idx frag =
     (if idx \<noteq> 0 then ['', ''] else []) @ (if int idx = at then [''<span class="extended">''] else [])
     @ [frag]\<close>

fun pieces :: "int \<Rightarrow> nat \<Rightarrow> string list \<Rightarrow> string list" where
  "pieces at idx [] = []"
| "pieces at idx (f # fs) = piece at idx f @ pieces at (Suc idx) fs"

definition reached :: "int \<Rightarrow> nat \<Rightarrow> nat \<Rightarrow> bool" where
  "reached at idx n = (int idx \<le> at \<and> at < int idx + int n)"

text \<open>
  The category of a value: the branch that \<open>dispatch_repr\<close> takes for it, in the order
  of its tests. The sequence categories have a pair of brackets and a base type.
\<close>

datatype category =
    C_help | C_number | C_text | C_pattern | C_list | C_tuple | C_set | C_frozenset
  | C_mapping | C_deque | C_generic

definition classify :: "heap \<Rightarrow> addr \<Rightarrow> category" where
  "classify h a =
     (let obj = h a in
      if a = helper then C_help
      else if isinstance obj T_int \<or> isinstance obj T_float \<or> isinstance obj T_complex
        then C_number
      else if isinstance obj T_str \<or> isinstance obj T_bytes then C_text
      else if isinstance obj T_Regex then C_pattern
      else if isinstance obj T_list then C_list
      else if isinstance obj T_tuple then C_tuple
      else if isinstance obj T_set then C_set
      else if isinstance obj T_frozenset then C_frozenset
      else if isinstance obj T_dict then C_mapping
      else if isinstance obj T_deque then C_deque
      else C_generic)"

definition brackets :: "category \<Rightarrow> (string \<times> string \<times> base) option" where
  \<open>brackets c =
     (case c of
        C_list \<Rightarrow> Some (''['', '']'', Base T_list)
      | C_tuple \<Rightarrow> Some (''('', '')'', Base T_tuple)
      | C_set \<Rightarrow> Some (''set(['', ''])'', Base T_set)
      | C_frozenset \<Rightarrow> Some (''frozenset(['', ''])'', Base T_frozenset)
      | C_deque \<Rightarrow> Some (''<span class="module">collections.</span>deque(['', ''])'', Base T_deque)
      | _ \<Rightarrow> None)\<close>










text \<open>
  The rows of a mapping's entries, and the rows of the attributes that are read: a name
  whose reading raises has no row.
\<close>

definition all_text :: "heap \<Rightarrow> (addr \<times> addr) list \<Rightarrow> bool" where
  "all_text h entries = list_all (\<lambda>(key, val). isinstance (h key) T_str) entries"



section \<open>Example values\<close>

definition KeyboardInterrupt :: pyexc where
  "KeyboardInterrupt = PyExc False (Inr [''KeyboardInterrupt'' @ [newline]])"

definition unsupported :: pyexc where
  "unsupported = PyExc True (Inr [''TypeError: unsupported operation'' @ [newline]])"

text \<open>An instance of \<open>object\<close>; the other examples change what differs.\<close>

definition plain_object :: pyobj where
  "plain_object =
     \<lparr> py_type = T_class 0, py_bases = [], py_name = ''object'', py_module = ''builtins'',
       py_repr = Inr ''<object object at 0x7f0c>'', py_object_repr = ''<object object at 0x7f0c>'',
       py_str = [], py_pattern_repr = [], py_iter = ([], Some unsupported),
       py_items = ([], Some unsupported), py_dir = Inr [],
       py_getattr = (\<lambda>name. Inl unsupported), py_escape = None \<rparr>"

definition int_obj :: "string \<Rightarrow> pyobj" where
  "int_obj r = plain_object \<lparr> py_type := T_int, py_name := ''int'', py_repr := Inr r \<rparr>"

definition list_obj :: "addr list \<Rightarrow> pyobj" where
  "list_obj xs = plain_object \<lparr> py_type := T_list, py_name := ''list'', py_iter := (xs, None) \<rparr>"

text \<open>An object whose \<open>__repr__\<close> is interrupted from the keyboard.\<close>

definition interrupted_obj :: pyobj where
  "interrupted_obj = plain_object \<lparr> py_repr := Inl KeyboardInterrupt \<rparr>"

text \<open>The list \<open>[1, x]\<close> with \<open>x\<close> the interrupted object.\<close>

definition heap_interrupted :: heap where
  "heap_interrupted =
     (\<lambda>a. plain_object)(1 := list_obj [2, 3], 2 := int_obj ''1'', 3 := interrupted_obj)"

text \<open>
  An instance of \<open>class L(list)\<close> defined in a script that \<open>runpy.run_path\<close> runs:
  the module of the class is named \<open><run_path>\<close>.
\<close>

definition scripted_list :: pyobj where
  "scripted_list =
     (list_obj []) \<lparr> py_type := T_class 1, py_bases := [T_list], py_name := ''L'',
                     py_module := ''<run_path>'' \<rparr>"

text \<open>An instance of a subclass of \<open>str\<close> whose \<open>__repr__\<close> returns the empty string.\<close>

definition empty_repr_str :: pyobj where
  "empty_repr_str =
     plain_object \<lparr> py_type := T_class 2, py_bases := [T_str], py_name := ''S'',
                    py_module := ''__main__'', py_repr := Inr [] \<rparr>"

text \<open>\<open>re.compile("(?P<n>a)")\<close>, a pattern with a named group.\<close>

definition named_group_regex :: pyobj where
  "named_group_regex =
     plain_object \<lparr> py_type := T_Regex, py_name := ''Pattern'', py_module := ''re'',
                    py_pattern_repr := [CHR 0x27] @ ''(?P<n>a)'' @ [CHR 0x27] \<rparr>"

text \<open>\<open>http.HTTPStatus.OK\<close>, a member of an \<open>IntEnum\<close>, which is an \<open>int\<close>.\<close>

definition http_status_ok :: pyobj where
  "http_status_ok =
     plain_object \<lparr> py_type := T_class 3, py_bases := [T_int], py_name := ''HTTPStatus'',
                    py_module := ''http'', py_repr := Inr ''<HTTPStatus.OK: 200>'' \<rparr>"

definition heap_markup :: heap where
  "heap_markup = (\<lambda>a. plain_object)(1 := named_group_regex, 2 := http_status_ok,
     3 := empty_repr_str, 4 := scripted_list)"

definition dict_obj :: "(addr \<times> addr) list \<Rightarrow> pyobj" where
  "dict_obj entries =
     plain_object \<lparr> py_type := T_dict, py_name := ''dict'', py_items := (entries, None) \<rparr>"

definition number_fragment :: "string \<Rightarrow> string" where
  \<open>number_fragment r = ''<span class="number">'' @ r @ ''</span>''\<close>

text \<open>
  The list \<open>[7] * 10\<close> at address 1, the mappings \<open>{1: 1, ..., 5: 1}\<close> at 9 and
  \<open>{1: 1, ..., 6: 1}\<close> at 10.
\<close>

definition heap_containers :: heap where
  "heap_containers = (\<lambda>a. plain_object)
     (1 := list_obj [8, 8, 8, 8, 8, 8, 8, 8, 8, 8],
      2 := int_obj ''1'', 3 := int_obj ''2'', 4 := int_obj ''3'', 5 := int_obj ''4'',
      6 := int_obj ''5'', 7 := int_obj ''6'', 8 := int_obj ''7'',
      9 := dict_obj [(2, 2), (3, 2), (4, 2), (5, 2), (6, 2)],
      10 := dict_obj [(2, 2), (3, 2), (4, 2), (5, 2), (6, 2), (7, 2)])"

definition entry_fragment :: "string \<Rightarrow> string" where
  "entry_fragment k = pair_fragment (number_fragment k) (number_fragment ''1'')"

text \<open>\<open>ValueError("boom")\<close>, and an exception that cannot be summarised.\<close>

definition ValueError_boom :: pyexc where
  "ValueError_boom = PyExc True (Inr [''ValueError: boom'' @ [newline]])"

definition unprintable_error :: pyexc where
  "unprintable_error = PyExc True (Inl unsupported)"

text \<open>
  The list \<open>[1, x, y]\<close>: \<open>repr(x)\<close> raises the \<open>ValueError\<close> and
  \<open>repr(y)\<close> the exception without a summary.
\<close>

definition heap_broken :: heap where
  "heap_broken = (\<lambda>a. plain_object)
     (1 := list_obj [2, 3, 4], 2 := int_obj ''1'',
      3 := plain_object \<lparr> py_repr := Inl ValueError_boom \<rparr>,
      4 := plain_object \<lparr> py_repr := Inl unprintable_error \<rparr>)"

text \<open>
  Two lists that are equal and are not the same object: the list at 2 holds itself, the list
  at 1 holds the list at 2.
\<close>

definition heap_twins :: heap where
  "heap_twins = (\<lambda>a. plain_object)(1 := list_obj [2], 2 := list_obj [2])"

definition SystemExit :: pyexc where
  "SystemExit = PyExc False (Inr [''SystemExit'' @ [newline]])"

definition str_obj :: "string \<Rightarrow> pyobj" where
  "str_obj s =
     plain_object \<lparr> py_type := T_str, py_name := ''str'',
                    py_repr := Inr ([CHR 0x27] @ s @ [CHR 0x27]), py_str := s \<rparr>"

text \<open>
  Values to dump: at 1 the mapping \<open>{"x": 1}\<close>; at 4 an object with the attributes
  \<open>a\<close>, which is 1, and \<open>b\<close>, whose reading raises a \<open>ValueError\<close>;
  at 5 an object whose \<open>__dir__\<close> raises; at 6 the mapping \<open>{1: 1}\<close>; at 7 an
  instance of a subclass of \<open>dict\<close> whose \<open>items()\<close> yields that entry and
  raises; at 8 an object
  with an attribute whose reading exits the interpreter.
\<close>

definition heap_dump :: heap where
  "heap_dump = (\<lambda>a. plain_object)
     (1 := (dict_obj [(2, 3)]) \<lparr> py_object_repr := ''<dict object at 0x7f10>'' \<rparr>,
      2 := str_obj ''x'',
      3 := int_obj ''1'',
      4 := plain_object
             \<lparr> py_type := T_class 5, py_name := ''P'', py_module := ''__main__'',
               py_repr := Inr ''<P>'', py_object_repr := ''<__main__.P object at 0x7f20>'',
               py_dir := Inr [''a'', ''b''],
               py_getattr := (\<lambda>name. if name = ''a'' then Inr 3 else Inl ValueError_boom) \<rparr>,
      5 := plain_object \<lparr> py_dir := Inl ValueError_boom \<rparr>,
      6 := dict_obj [(3, 3)],
      7 := (dict_obj []) \<lparr> py_type := T_class 4, py_bases := [T_dict], py_name := ''D'',
                             py_module := ''__main__'',
                             py_items := ([(2, 3)], Some ValueError_boom) \<rparr>,
      8 := plain_object
             \<lparr> py_dir := Inr [''a'', ''quit''],
               py_getattr := (\<lambda>name. if name = ''a'' then Inr 3 else Inl SystemExit) \<rparr>)"

section \<open>Properties\<close>

subsection \<open>The stack is left as it was found\<close>

lemma on_stack_iff: "on_stack stack a = (a \<in> set stack)"
  by (induction stack) auto

lemma keeps_stackD: "keeps_stack f \<Longrightarrow> f stack a = Some (stack', r) \<Longrightarrow> stack' = stack"
  by (auto simp: keeps_stack_def)

lemma sequence_loop_stack:
  "keeps_stack self_repr \<Longrightarrow>
   sequence_loop self_repr limit idx stack items buf ext = Some (stack', r) \<Longrightarrow> stack' = stack"
proof (induction items arbitrary: idx stack buf ext)
  case Nil
  then show ?case by simp
next
  case (Cons item rest)
  show ?case
  proof (cases "self_repr stack item")
    case None
    with Cons.prems show ?thesis by (simp add: Let_def)
  next
    case (Some p)
    obtain s1 r1 where p: "p = (s1, r1)" by (cases p)
    have s1: "s1 = stack" using Cons.prems(1) Some p by (auto dest: keeps_stackD)
    show ?thesis
    proof (cases r1)
      case (Inl e)
      with Cons.prems Some p s1 show ?thesis by (simp add: Let_def)
    next
      case (Inr frag)
      with Cons.prems Some p s1 show ?thesis
        by (auto simp: Let_def dest: Cons.IH)
    qed
  qed
qed

lemma dict_loop_stack:
  "keeps_stack self_repr \<Longrightarrow>
   dict_loop self_repr limit idx stack entries buf ext = Some (stack', r) \<Longrightarrow> stack' = stack"
proof (induction entries arbitrary: idx stack buf ext)
  case Nil
  then show ?case by simp
next
  case (Cons entry rest)
  obtain k v where entry: "entry = (k, v)" by (cases entry)
  show ?case
  proof (cases "self_repr stack k")
    case None
    with Cons.prems entry show ?thesis by (simp add: Let_def)
  next
    case (Some p)
    obtain s1 r1 where p: "p = (s1, r1)" by (cases p)
    have s1: "s1 = stack" using Cons.prems(1) Some p by (auto dest: keeps_stackD)
    show ?thesis
    proof (cases r1)
      case (Inl e)
      with Cons.prems Some p s1 entry show ?thesis by (simp add: Let_def)
    next
      case kf: (Inr kfrag)
      show ?thesis
      proof (cases "self_repr stack v")
        case None
        with Cons.prems Some p s1 entry kf show ?thesis by (simp add: Let_def)
      next
        case Some2: (Some q)
        obtain s2 r2 where q: "q = (s2, r2)" by (cases q)
        have s2: "s2 = stack" using Cons.prems(1) Some2 q by (auto dest: keeps_stackD)
        show ?thesis
        proof (cases r2)
          case (Inl e)
          with Cons.prems Some p s1 entry kf Some2 q s2 show ?thesis by (simp add: Let_def)
        next
          case (Inr vfrag)
          with Cons.prems Some p s1 entry kf Some2 q s2 show ?thesis
            by (auto simp: Let_def dest: Cons.IH)
        qed
      qed
    qed
  qed
qed

lemma sequence_repr_maker_stack:
  "keeps_stack self_repr \<Longrightarrow>
   sequence_repr_maker left right base limit self_repr h stack a recursive = Some (stack', r)
   \<Longrightarrow> stack' = stack"
  by (auto simp: sequence_repr_maker_def Let_def
      split: if_splits option.splits sum.splits prod.splits dest: sequence_loop_stack)

lemma dict_repr_stack:
  "keeps_stack self_repr \<Longrightarrow>
   dict_repr self_repr h stack a recursive limit = Some (stack', r) \<Longrightarrow> stack' = stack"
  by (auto simp: dict_repr_def Let_def
      split: if_splits option.splits sum.splits prod.splits dest: dict_loop_stack)

lemma dispatch_repr_stack:
  "keeps_stack self_repr \<Longrightarrow>
   dispatch_repr decode self_repr h stack a recursive = Some (stack', r) \<Longrightarrow> stack' = stack"
  unfolding dispatch_repr_def Let_def list_repr_def tuple_repr_def set_repr_def
    frozenset_repr_def deque_repr_def
  by (auto split: if_splits dest: sequence_repr_maker_stack dict_repr_stack)

lemma repr_keeps_stack: "keeps_stack (repr n decode h)"
proof (induction n)
  case 0
  show ?case by (simp add: keeps_stack_def)
next
  case (Suc n)
  show ?case
    unfolding keeps_stack_def
  proof (intro allI impI)
    fix stack a stack' r
    assume run: "repr (Suc n) decode h stack a = Some (stack', r)"
    then obtain s1 r1 where
      d: "dispatch_repr decode (repr n decode h) h (stack @ [a]) a (on_stack stack a) = Some (s1, r1)"
      by (auto simp: Let_def split: option.splits)
    from dispatch_repr_stack [OF Suc d] have "s1 = stack @ [a]" .
    with run d show "stack' = stack"
      by (auto simp: Let_def split: sum.splits if_splits)
  qed
qed

lemma repr_stack: "repr n decode h stack a = Some (stack', r) \<Longrightarrow> stack' = stack"
  using repr_keeps_stack by (rule keeps_stackD)

lemma sequence_loop_only_on:
  "keeps_stack f \<Longrightarrow>
   sequence_loop (only_on s f) limit idx s items buf ext = sequence_loop f limit idx s items buf ext"
proof (induction items arbitrary: idx buf ext)
  case Nil
  show ?case by simp
next
  case (Cons item rest)
  show ?case
  proof (cases "f s item")
    case None
    then show ?thesis by (simp add: only_on_def Let_def)
  next
    case (Some p)
    obtain s1 r1 where p: "p = (s1, r1)" by (cases p)
    have s1: "s1 = s" using Cons.prems Some p by (auto dest: keeps_stackD)
    show ?thesis
    proof (cases r1)
      case (Inl e)
      with Some p s1 show ?thesis by (simp add: only_on_def Let_def)
    next
      case (Inr frag)
      with Some p s1 Cons.IH [OF Cons.prems] show ?thesis by (simp add: only_on_def Let_def)
    qed
  qed
qed

lemma dict_loop_only_on:
  "keeps_stack f \<Longrightarrow>
   dict_loop (only_on s f) limit idx s entries buf ext = dict_loop f limit idx s entries buf ext"
proof (induction entries arbitrary: idx buf ext)
  case Nil
  show ?case by simp
next
  case (Cons entry rest)
  obtain k v where entry: "entry = (k, v)" by (cases entry)
  show ?case
  proof (cases "f s k")
    case None
    with entry show ?thesis by (simp add: only_on_def Let_def)
  next
    case (Some p)
    obtain s1 r1 where p: "p = (s1, r1)" by (cases p)
    have s1: "s1 = s" using Cons.prems Some p by (auto dest: keeps_stackD)
    show ?thesis
    proof (cases r1)
      case (Inl e)
      with Some p s1 entry show ?thesis by (simp add: only_on_def Let_def)
    next
      case kf: (Inr kfrag)
      show ?thesis
      proof (cases "f s v")
        case None
        with Some p s1 entry kf show ?thesis by (simp add: only_on_def Let_def)
      next
        case Some2: (Some q)
        obtain s2 r2 where q: "q = (s2, r2)" by (cases q)
        have s2: "s2 = s" using Cons.prems Some2 q by (auto dest: keeps_stackD)
        show ?thesis
        proof (cases r2)
          case (Inl e)
          with Some p s1 entry kf Some2 q s2 show ?thesis by (simp add: only_on_def Let_def)
        next
          case (Inr vfrag)
          with Some p s1 entry kf Some2 q s2 Cons.IH [OF Cons.prems] show ?thesis
            by (simp add: only_on_def Let_def)
        qed
      qed
    qed
  qed
qed

lemma dispatch_repr_only_on:
  "keeps_stack f \<Longrightarrow>
   dispatch_repr decode (only_on s f) h s a recursive = dispatch_repr decode f h s a recursive"
  by (simp add: dispatch_repr_def Let_def list_repr_def tuple_repr_def set_repr_def
      frozenset_repr_def deque_repr_def sequence_repr_maker_def dict_repr_def
      sequence_loop_only_on dict_loop_only_on)

lemma repr_call_returns:
  assumes "repr_call dispatch stack a = Some (stack', r)"
  shows "\<exists>s1 r1. dispatch (stack @ [a]) a (on_stack stack a) = Some (s1, r1)
           \<and> stack' = butlast s1 \<and> r = caught r1"
proof (cases "dispatch (stack @ [a]) a (on_stack stack a)")
  case None
  then show ?thesis using assms by (simp add: repr_call_def Let_def)
next
  case (Some p)
  obtain s1 r1 where p: "p = (s1, r1)" by (cases p)
  from assms Some p have "stack' = butlast s1 \<and> r = caught r1"
    by (cases r1) (auto simp: repr_call_def caught_def Let_def split: if_splits)
  with Some p show ?thesis by simp
qed

lemma repr_call_pops:
  "dispatch (stack @ [a]) a (on_stack stack a) = Some (s1, r1) \<Longrightarrow>
   repr_call dispatch stack a = Some (butlast s1, caught r1)"
  by (cases r1) (simp_all add: repr_call_def caught_def Let_def)

text \<open>
  C5. The stack of a new generator is empty. A call of \<open>repr\<close> is the body
  \<open>repr_call\<close> around the dispatch of the class. Whatever the dispatch is, a call that
  ends has run the dispatch on the stack with the value appended, with the flag found before
  the \<open>append\<close>; and once that dispatch has ended, with a fragment or with an
  exception of either kind, the call ends on the stack that the dispatch left, without its
  last entry. The dispatch of the class makes its nested calls on the stack it was given
  and on no other, and leaves that stack: when it ends the value is the last entry, which
  the \<open>finally\<close> clause pops. So a call leaves the stack it found, whether it
  returns a fragment, a broken representation or raises, and a top-level call leaves the
  stack empty.
\<close>

theorem repr_stack_discipline:
  "init = [] \<and>
   repr (Suc n) decode h stack a = repr_call (dispatch_repr decode (repr n decode h) h) stack a \<and>
   (repr_call dispatch stack a = Some (stack', r) \<longrightarrow>
      (\<exists>s1 r1. dispatch (stack @ [a]) a (on_stack stack a) = Some (s1, r1)
               \<and> stack' = butlast s1 \<and> r = caught r1)) \<and>
   (dispatch (stack @ [a]) a (on_stack stack a) = Some (s1, r1) \<longrightarrow>
      repr_call dispatch stack a = Some (butlast s1, caught r1)) \<and>
   dispatch_repr decode (only_on s (repr n decode h)) h s x recursive
     = dispatch_repr decode (repr n decode h) h s x recursive \<and>
   (dispatch_repr decode (repr n decode h) h s x recursive = Some (s2, r2) \<longrightarrow> s2 = s) \<and>
   (dispatch_repr decode (repr n decode h) h (stack @ [a]) a (on_stack stack a) = Some (s3, r3) \<longrightarrow>
      s3 = stack @ [a] \<and> last s3 = a \<and>
      repr (Suc n) decode h stack a = Some (stack, caught r3)) \<and>
   (repr m decode h stack a = Some (stack4, r4) \<longrightarrow> stack4 = stack) \<and>
   (debug_repr m decode h a = Some (stack5, r5) \<longrightarrow> stack5 = [])"
proof (intro conjI impI)
  show "init = []" by (simp add: init_def)
next
  show "repr (Suc n) decode h stack a
      = repr_call (dispatch_repr decode (repr n decode h) h) stack a"
    by (simp add: repr_call_def)
next
  assume "repr_call dispatch stack a = Some (stack', r)"
  then show "\<exists>s1 r1. dispatch (stack @ [a]) a (on_stack stack a) = Some (s1, r1)
      \<and> stack' = butlast s1 \<and> r = caught r1"
    by (rule repr_call_returns)
next
  assume "dispatch (stack @ [a]) a (on_stack stack a) = Some (s1, r1)"
  then show "repr_call dispatch stack a = Some (butlast s1, caught r1)"
    by (rule repr_call_pops)
next
  show "dispatch_repr decode (only_on s (repr n decode h)) h s x recursive
      = dispatch_repr decode (repr n decode h) h s x recursive"
    using repr_keeps_stack by (rule dispatch_repr_only_on)
next
  assume "dispatch_repr decode (repr n decode h) h s x recursive = Some (s2, r2)"
  with repr_keeps_stack show "s2 = s" by (rule dispatch_repr_stack)
next
  assume d: "dispatch_repr decode (repr n decode h) h (stack @ [a]) a (on_stack stack a)
      = Some (s3, r3)"
  with repr_keeps_stack show s3: "s3 = stack @ [a]" by (rule dispatch_repr_stack)
  then show "last s3 = a" by simp
  have "repr_call (dispatch_repr decode (repr n decode h) h) stack a
      = Some (butlast s3, caught r3)"
    using d by (rule repr_call_pops)
  with s3 show "repr (Suc n) decode h stack a = Some (stack, caught r3)"
    by (simp add: repr_call_def)
next
  assume "repr m decode h stack a = Some (stack4, r4)"
  then show "stack4 = stack" by (rule repr_stack)
next
  assume "debug_repr m decode h a = Some (stack5, r5)"
  then show "stack5 = []" by (auto simp: debug_repr_def init_def dest: repr_stack)
qed

text \<open>
  The list at 2 holds itself: the dispatch runs on the stack \<open>[2]\<close>, where the nested
  call finds the list and answers \<open>[...]\<close>, and the call ends on the empty stack. On
  the list \<open>[1, x]\<close> whose second element is interrupted while it is rendered, the
  dispatch raises on the stack \<open>[1]\<close> and the call raises on the empty stack. The
  object whose \<open>__repr__\<close> raises a \<open>ValueError\<close> is a broken representation,
  on the empty stack.
\<close>

theorem repr_stack_discipline_witness:
  "repr_call (dispatch_repr (\<lambda>s. s) (repr 1 (\<lambda>s. s) heap_twins) heap_twins) [] 2
     = Some ([], Inr ''[[...]]'') \<and>
   dispatch_repr (\<lambda>s. s) (repr 1 (\<lambda>s. s) heap_twins) heap_twins ([] @ [2]) 2 (on_stack [] 2)
     = Some ([2], Inr ''[[...]]'') \<and>
   (\<exists>s1 r1. dispatch_repr (\<lambda>s. s) (repr 1 (\<lambda>s. s) heap_twins) heap_twins ([] @ [2]) 2
                (on_stack [] 2) = Some (s1, r1)
            \<and> [] = butlast s1 \<and> Inr ''[[...]]'' = caught r1) \<and>
   repr_call (dispatch_repr (\<lambda>s. s) (repr 1 (\<lambda>s. s) heap_twins) heap_twins) [] 2
     = Some (butlast [2], caught (Inr ''[[...]]'')) \<and>
   repr (Suc 1) (\<lambda>s. s) heap_twins [] 2 = Some ([], Inr ''[[...]]'') \<and>
   debug_repr (Suc 1) (\<lambda>s. s) heap_twins 2 = Some ([], Inr ''[[...]]'') \<and>
   dispatch_repr (\<lambda>s. s) (repr 1 (\<lambda>s. s) heap_interrupted) heap_interrupted ([] @ [1]) 1
       (on_stack [] 1)
     = Some ([1], Inl KeyboardInterrupt) \<and>
   repr (Suc 1) (\<lambda>s. s) heap_interrupted [] 1 = Some ([], caught (Inl KeyboardInterrupt)) \<and>
   caught (Inl KeyboardInterrupt) = Inl KeyboardInterrupt \<and>
   debug_repr 1 (\<lambda>s. s) heap_broken 3 = Some ([], fallback_repr ValueError_boom)"
proof -
  let ?d = "dispatch_repr (\<lambda>s. s) (repr 1 (\<lambda>s. s) heap_twins) heap_twins"
  let ?e = "dispatch_repr (\<lambda>s. s) (repr 1 (\<lambda>s. s) heap_interrupted) heap_interrupted"
  have d: "?d ([] @ [2]) 2 (on_stack [] 2) = Some ([2], Inr ''[[...]]'')" by code_simp
  have c: "repr_call ?d [] 2 = Some ([], Inr ''[[...]]'')" by code_simp
  have r: "repr (Suc 1) (\<lambda>s. s) heap_twins [] 2 = Some ([], Inr ''[[...]]'')" by code_simp
  have t: "debug_repr (Suc 1) (\<lambda>s. s) heap_twins 2 = Some ([], Inr ''[[...]]'')" by code_simp
  have e: "?e ([] @ [1]) 1 (on_stack [] 1) = Some ([1], Inl KeyboardInterrupt)" by code_simp
  have k: "caught (Inl KeyboardInterrupt) = Inl KeyboardInterrupt" by code_simp
  have b: "debug_repr 1 (\<lambda>s. s) heap_broken 3 = Some ([], fallback_repr ValueError_boom)"
    by code_simp
  note w = repr_stack_discipline [where n = 1 and decode = "\<lambda>s. s" and h = heap_twins
      and stack = "[]" and a = 2 and dispatch = ?d and stack' = "[]" and r = "Inr ''[[...]]''"
      and ?s1.0 = "[2]" and ?r1.0 = "Inr ''[[...]]''" and s = "[] @ [2]" and x = 2
      and recursive = "on_stack [] 2"
      and ?s2.0 = "[2]" and ?r2.0 = "Inr ''[[...]]''"
      and ?s3.0 = "[2]" and ?r3.0 = "Inr ''[[...]]''" and m = "Suc 1" and ?stack4.0 = "[]"
      and ?r4.0 = "Inr ''[[...]]''" and ?stack5.0 = "[]" and ?r5.0 = "Inr ''[[...]]''"]
  note v = repr_stack_discipline [where n = 1 and decode = "\<lambda>s. s" and h = heap_interrupted
      and stack = "[]" and a = 1 and ?s3.0 = "[1]" and ?r3.0 = "Inl KeyboardInterrupt"]
  have a0: "\<exists>s1 r1. ?d ([] @ [2]) 2 (on_stack [] 2) = Some (s1, r1)
      \<and> [] = butlast s1 \<and> Inr ''[[...]]'' = caught r1"
    using w c by blast
  have a1: "repr_call ?d [] 2 = Some (butlast [2], caught (Inr ''[[...]]''))"
    using w d by blast
  have a2: "repr (Suc 1) (\<lambda>s. s) heap_interrupted [] 1 = Some ([], caught (Inl KeyboardInterrupt))"
    using v e by blast
  from c d a0 a1 r t e a2 k b show ?thesis by (simp only: simp_thms)
qed

subsection \<open>Escaping\<close>

lemma escape_char_safe:
  "c' \<in> set (escape_char c) \<Longrightarrow> c' \<notin> {CHR ''<'', CHR ''>'', CHR 0x22, CHR 0x27}"
  by (auto simp: escape_char_def split: if_splits)

lemma escape_safe: "c \<in> set (escape s) \<Longrightarrow> c \<notin> {CHR ''<'', CHR ''>'', CHR 0x22, CHR 0x27}"
  unfolding escape_def using escape_char_safe by fastforce

text \<open>
  C1. The text of a pattern and the native text of a number reach the fragment as they
  are: \<open>regex_repr\<close> and the number branch of \<open>dispatch_repr\<close> do not call
  \<open>escape\<close>, which \<open>string_repr\<close>, \<open>object_repr\<close> and \<open>fallback_repr\<close> do.
  The pattern \<open>(?P<n>a)\<close> and the enumeration member \<open><HTTPStatus.OK: 200>\<close> are
  rendered with their angle brackets. (Decoding \<open>unicode-escape\<close> leaves a text without
  backslash as it is.)
\<close>

theorem repr_markup_unescaped:
  \<open>debug_repr 1 (\<lambda>s. s) heap_markup 1
     = Some ([], Inr (''re.compile(<span class="string regex">r'' @ [CHR 0x27] @ ''(?P<n>a)''
                      @ [CHR 0x27] @ ''</span>)'')) \<and>
   debug_repr 1 (\<lambda>s. s) heap_markup 2
     = Some ([], Inr ''<span class="number"><HTTPStatus.OK: 200></span>'')\<close>
  by code_simp

subsection \<open>Subclass annotation\<close>

lemma is_one_of_iff: "is_one_of t bs = (t \<in> set bs)"
  by (induction bs) auto

text \<open>
  The annotation is applied exactly when the type of the value is none of the bases; the
  module is left out for the two names \<open>__builtin__\<close> and \<open>exceptions\<close>.
\<close>

lemma add_subclass_info_cases:
  \<open>add_subclass_info inner obj base =
     (if (case base of Base b \<Rightarrow> py_type obj = b | Bases bs \<Rightarrow> py_type obj \<in> set bs) then inner
      else (if py_module obj = ''__builtin__'' \<or> py_module obj = ''exceptions'' then []
            else ''<span class="module">'' @ py_module obj @ ''.</span>'')
           @ py_name obj @ ''('' @ inner @ '')'')\<close>
  by (cases base) (auto simp: annotation_def is_one_of_iff)

text \<open>
  C6. The name of the module is put into the fragment as it is, not escaped: for the class
  of a script run by \<open>runpy.run_path\<close> the fragment holds \<open><run_path>\<close>.
\<close>

theorem add_subclass_info_module_unescaped:
  \<open>add_subclass_info ''[]'' scripted_list (Base T_list)
     = ''<span class="module"><run_path>.</span>L([])'' \<and>
   add_subclass_info ''[]'' scripted_list (Base T_list)
     \<noteq> ''<span class="module">'' @ escape ''<run_path>'' @ ''.</span>L([])''\<close>
  by code_simp

subsection \<open>Texts\<close>

text \<open>
  When \<open>repr(obj)\<close> returns \<open>r\<close> and the test of its first characters succeeds,
  \<open>string_repr\<close> splits \<open>r\<close> at \<open>limit\<close> exactly when \<open>r\<close> is longer than
  \<open>limit + 2\<close>, and escapes both parts.
\<close>

lemma string_repr_split:
  assumes "py_repr obj = Inr r" and "0 \<le> limit" and "looks_standard r = Inr standard"
  shows \<open>string_repr obj limit =
     Inr ((if standard then (\<lambda>out. add_subclass_info out obj (Bases [T_bytes, T_str]))
           else (\<lambda>out. out))
          (if int (length r) > limit + 2
           then ''<span class="string">'' @ escape (take (nat limit) r)
                @ ''<span class="extended">'' @ escape (drop (nat limit) r) @ ''</span>''
                @ ''</span>''
           else ''<span class="string">'' @ escape r @ ''</span>''))\<close>
  using assms by (auto simp: string_repr_def slice_to_def slice_from_def Let_def)

text \<open>
  C8. The literal form of a text can be empty (a subclass of \<open>str\<close> whose
  \<open>__repr__\<close> returns \<open>""\<close>): it is not longer than \<open>limit + 2\<close>, and
  \<open>string_repr\<close> raises \<open>IndexError\<close> at \<open>r[0]\<close> where the literal was to be
  rendered whole; \<open>repr\<close> shows a broken representation.
\<close>

theorem string_repr_empty_literal:
  \<open>length ([] :: string) \<le> 70 + 2 \<and> py_repr empty_repr_str = Inr [] \<and>
   isinstance empty_repr_str T_str \<and>
   string_repr empty_repr_str 70 = Inl IndexError \<and>
   debug_repr 1 (\<lambda>s. s) heap_markup 3
     = Some ([], Inr (''<span class="brokenrepr">&lt;broken repr (IndexError: string index out of range)&gt;</span>''))\<close>
  by code_simp

subsection \<open>Containers: the wrapper of the elements beyond the limit\<close>

lemma sequence_loop_pieces:
  "\<forall>b \<in> set items. self_repr stack b = Some (stack, Inr (frag b)) \<Longrightarrow>
   sequence_loop self_repr limit idx stack items buf ext
     = Some (stack, Inr (buf @ pieces limit idx (map frag items),
                         ext \<or> reached limit idx (length items)))"
proof (induction items arbitrary: idx buf ext)
  case Nil
  then show ?case by (auto simp: reached_def)
next
  case (Cons item rest)
  have here: "self_repr stack item = Some (stack, Inr (frag item))"
    and rest: "\<forall>b \<in> set rest. self_repr stack b = Some (stack, Inr (frag b))"
    using Cons.prems by auto
  show ?case
    using here by (auto simp: Cons.IH [OF rest] Let_def piece_def reached_def)
qed

lemma dict_loop_pieces:
  "\<forall>(k, v) \<in> set entries. self_repr stack k = Some (stack, Inr (frag k))
                          \<and> self_repr stack v = Some (stack, Inr (frag v)) \<Longrightarrow>
   dict_loop self_repr limit idx stack entries buf ext
     = Some (stack, Inr (buf @ pieces (limit - 1) idx
                                 (map (\<lambda>(k, v). pair_fragment (frag k) (frag v)) entries),
                         ext \<or> reached (limit - 1) idx (length entries)))"
proof (induction entries arbitrary: idx buf ext)
  case Nil
  then show ?case by (auto simp: reached_def)
next
  case (Cons entry rest)
  obtain k v where entry: "entry = (k, v)" by (cases entry)
  have here: "self_repr stack k = Some (stack, Inr (frag k))"
    "self_repr stack v = Some (stack, Inr (frag v))"
    and rest: "\<forall>(k, v) \<in> set rest. self_repr stack k = Some (stack, Inr (frag k))
                          \<and> self_repr stack v = Some (stack, Inr (frag v))"
    using Cons.prems entry by auto
  show ?case
    using here entry
    by (auto simp: Cons.IH [OF rest] Let_def piece_def pair_fragment_def reached_def)
qed

lemma join_Cons: "join sep (x # xs) = x @ concat (map (\<lambda>f. sep @ f) xs)"
  by (induction xs arbitrary: x) auto

lemma pieces_after:
  "at < int idx \<Longrightarrow> 0 < idx
   \<Longrightarrow> concat (pieces at idx fs) = concat (map (\<lambda>f. '', '' @ f) fs)"
  by (induction fs arbitrary: idx) (auto simp: piece_def)

lemma pieces_before:
  "int idx + int (length fs) \<le> at \<Longrightarrow> 0 < idx
   \<Longrightarrow> concat (pieces at idx fs) = concat (map (\<lambda>f. '', '' @ f) fs)"
  by (induction fs arbitrary: idx) (auto simp: piece_def)

lemma pieces_never:
  "at < 0 \<or> int (length fs) \<le> at \<Longrightarrow> concat (pieces at 0 fs) = join '', '' fs"
proof (cases fs)
  case Nil
  then show ?thesis by simp
next
  case (Cons f fs')
  assume a: "at < 0 \<or> int (length fs) \<le> at"
  have "concat (pieces at (Suc 0) fs') = concat (map (\<lambda>f. '', '' @ f) fs')"
    using a Cons pieces_after [of at "Suc 0" fs'] pieces_before [of "Suc 0" fs' at]
    by auto
  with a Cons show ?thesis
    by (auto simp: piece_def join_Cons)
qed

lemma pieces_append:
  "pieces at idx (fs @ gs) = pieces at idx fs @ pieces at (idx + length fs) gs"
  by (induction fs arbitrary: idx) auto

lemma pieces_collapsed:
  \<open>concat (pieces (int k) 0 fs) @ (if reached (int k) 0 (length fs) then ''</span>'' else [])
     = collapsed k fs\<close>
proof (cases "length fs \<le> k")
  case True
  then show ?thesis
    using pieces_never [of "int k" fs] by (auto simp: collapsed_def reached_def)
next
  case False
  then obtain g gs where d: "drop k fs = g # gs"
    by (cases "drop k fs") auto
  have split: "fs = take k fs @ g # gs" using d by (metis append_take_drop_id)
  have lt: "length (take k fs) = k" using False by simp
  have before: "concat (pieces (int k) 0 (take k fs)) = join '', '' (take k fs)"
    using pieces_never [of "int k" "take k fs"] by simp
  have after: "concat (pieces (int k) (Suc k) gs) = concat (map (\<lambda>f. '', '' @ f) gs)"
    by (rule pieces_after) simp_all
  have "concat (pieces (int k) 0 fs)
        = concat (pieces (int k) 0 (take k fs)) @ concat (pieces (int k) k (g # gs))"
    using pieces_append [of "int k" 0 "take k fs" "g # gs"] split lt by simp
  also have "\<dots> = join '', '' (take k fs) @ (if k = 0 then [] else '', '')
        @ ''<span class='' @ [CHR 0x22] @ ''extended'' @ [CHR 0x22] @ ''>'' @ join '', '' (g # gs)"
    using before after by (simp add: piece_def join_Cons)
  finally show ?thesis
    using False d by (simp add: collapsed_def reached_def)
qed

lemma dispatch_repr_classify:
  \<open>dispatch_repr decode self_repr h stack a recursive =
     (case classify h a of
        C_help \<Rightarrow> Some (stack, Inr (''<span class="help">'' @ helper_repr @ ''</span>''))
      | C_number \<Rightarrow> Some (stack, number_repr (h a))
      | C_text \<Rightarrow> Some (stack, string_repr (h a) 70)
      | C_pattern \<Rightarrow> Some (stack, Inr (regex_repr decode (h a)))
      | C_mapping \<Rightarrow> dict_repr self_repr h stack a recursive 5
      | C_generic \<Rightarrow> Some (stack, object_repr (h a))
      | c \<Rightarrow> (case the (brackets c) of (left, right, base) \<Rightarrow>
                 sequence_repr_maker left right base 8 self_repr h stack a recursive))\<close>
  by (simp add: dispatch_repr_def classify_def brackets_def Let_def list_repr_def
      tuple_repr_def set_repr_def frozenset_repr_def deque_repr_def)

lemma sequence_repr_maker_collapsed:
  assumes "snd (py_iter (h a)) = None"
    and "\<forall>b \<in> set (fst (py_iter (h a))). self_repr stack b = Some (stack, Inr (frag b))"
  shows "sequence_repr_maker left right base (int k) self_repr h stack a False
     = Some (stack, Inr (add_subclass_info
         (left @ collapsed k (map frag (fst (py_iter (h a)))) @ right) (h a) base))"
proof -
  let ?fs = "map frag (fst (py_iter (h a)))"
  have c: "concat (pieces (int k) 0 ?fs) @ (if reached (int k) 0 (length ?fs) then ''</span>'' else [])
        = collapsed k ?fs"
    by (rule pieces_collapsed)
  have "sequence_loop self_repr (int k) 0 stack (fst (py_iter (h a))) [left] False
      = Some (stack, Inr ([left] @ pieces (int k) 0 ?fs,
                          False \<or> reached (int k) 0 (length (fst (py_iter (h a))))))"
    using assms(2) by (rule sequence_loop_pieces)
  then show ?thesis
    using assms(1) by (simp add: sequence_repr_maker_def Let_def c [symmetric])
qed

lemma dict_repr_collapsed:
  assumes "snd (py_items (h a)) = None"
    and "\<forall>(key, val) \<in> set (fst (py_items (h a))).
           self_repr stack key = Some (stack, Inr (frag key))
           \<and> self_repr stack val = Some (stack, Inr (frag val))"
  shows "dict_repr self_repr h stack a False (int k + 1)
     = Some (stack, Inr (add_subclass_info
         (''{'' @ collapsed k (map (\<lambda>(key, val). pair_fragment (frag key) (frag val))
                                (fst (py_items (h a)))) @ ''}'') (h a) (Base T_dict)))"
proof -
  let ?fs = "map (\<lambda>(key, val). pair_fragment (frag key) (frag val)) (fst (py_items (h a)))"
  have c: "concat (pieces (int k) 0 ?fs) @ (if reached (int k) 0 (length ?fs) then ''</span>'' else [])
        = collapsed k ?fs"
    by (rule pieces_collapsed)
  have "dict_loop self_repr (int k + 1) 0 stack (fst (py_items (h a))) [''{''] False
      = Some (stack, Inr ([''{''] @ pieces (int k + 1 - 1) 0 ?fs,
                          False \<or> reached (int k + 1 - 1) 0 (length (fst (py_items (h a))))))"
    using assms(2) by (rule dict_loop_pieces)
  then show ?thesis
    using assms(1) by (simp add: dict_repr_def Let_def c [symmetric])
qed

lemma repr_fresh:
  "a \<notin> set stack \<Longrightarrow>
   dispatch_repr decode (repr n decode h) h (stack @ [a]) a False = Some (stack @ [a], Inr frag)
   \<Longrightarrow> repr (Suc n) decode h stack a = Some (stack, Inr frag)"
  by (simp add: on_stack_iff Let_def)

text \<open>
  C2, as amended. A container that is not met again on the stack, whose iteration ends
  without an exception and whose elements are rendered to fragments, is rendered as its
  brackets around \<open>collapsed k\<close> of the fragments: the first \<open>k\<close> fragments
  as they are and, when there are more than \<open>k\<close>, the others inside one wrapper of
  class \<open>extended\<close>; with at most \<open>k\<close> fragments there is no wrapper. For the
  sequences and sets \<open>k\<close> is the limit (8 under \<open>repr\<close>); for a mapping
  \<open>k\<close> is the limit less one (4 under \<open>repr\<close>, whose limit is 5).
\<close>

theorem extended_wrapper:
  "(snd (py_iter (h a)) = None
      \<and> (\<forall>b \<in> set (fst (py_iter (h a))). self_repr stack b = Some (stack, Inr (frag b)))
    \<longrightarrow> sequence_repr_maker left right base (int k) self_repr h stack a False
          = Some (stack, Inr (add_subclass_info
              (left @ collapsed k (map frag (fst (py_iter (h a)))) @ right) (h a) base))) \<and>
   (snd (py_items (h a)) = None
      \<and> (\<forall>(key, val) \<in> set (fst (py_items (h a))).
            self_repr stack key = Some (stack, Inr (frag key))
            \<and> self_repr stack val = Some (stack, Inr (frag val)))
    \<longrightarrow> dict_repr self_repr h stack a False (int k + 1)
          = Some (stack, Inr (add_subclass_info
              (''{'' @ collapsed k (map (\<lambda>(key, val). pair_fragment (frag key) (frag val))
                                     (fst (py_items (h a)))) @ ''}'') (h a) (Base T_dict)))) \<and>
   (brackets (classify h a) = Some (left', right', base') \<and> a \<notin> set stack
      \<and> snd (py_iter (h a)) = None
      \<and> (\<forall>b \<in> set (fst (py_iter (h a))).
            repr n decode h (stack @ [a]) b = Some (stack @ [a], Inr (frag b)))
    \<longrightarrow> repr (Suc n) decode h stack a
          = Some (stack, Inr (add_subclass_info
              (left' @ collapsed 8 (map frag (fst (py_iter (h a)))) @ right') (h a) base'))) \<and>
   (classify h a = C_mapping \<and> a \<notin> set stack \<and> snd (py_items (h a)) = None
      \<and> (\<forall>(key, val) \<in> set (fst (py_items (h a))).
            repr n decode h (stack @ [a]) key = Some (stack @ [a], Inr (frag key))
            \<and> repr n decode h (stack @ [a]) val = Some (stack @ [a], Inr (frag val)))
    \<longrightarrow> repr (Suc n) decode h stack a
          = Some (stack, Inr (add_subclass_info
              (''{'' @ collapsed 4 (map (\<lambda>(key, val). pair_fragment (frag key) (frag val))
                                     (fst (py_items (h a)))) @ ''}'') (h a) (Base T_dict))))"
proof (intro conjI impI)
  assume "snd (py_iter (h a)) = None
      \<and> (\<forall>b \<in> set (fst (py_iter (h a))). self_repr stack b = Some (stack, Inr (frag b)))"
  then show "sequence_repr_maker left right base (int k) self_repr h stack a False
          = Some (stack, Inr (add_subclass_info
              (left @ collapsed k (map frag (fst (py_iter (h a)))) @ right) (h a) base))"
    by (intro sequence_repr_maker_collapsed) auto
next
  assume "snd (py_items (h a)) = None
      \<and> (\<forall>(key, val) \<in> set (fst (py_items (h a))).
            self_repr stack key = Some (stack, Inr (frag key))
            \<and> self_repr stack val = Some (stack, Inr (frag val)))"
  then show "dict_repr self_repr h stack a False (int k + 1)
          = Some (stack, Inr (add_subclass_info
              (''{'' @ collapsed k (map (\<lambda>(key, val). pair_fragment (frag key) (frag val))
                                     (fst (py_items (h a)))) @ ''}'') (h a) (Base T_dict)))"
    by (intro dict_repr_collapsed) auto
next
  assume a: "brackets (classify h a) = Some (left', right', base') \<and> a \<notin> set stack
      \<and> snd (py_iter (h a)) = None
      \<and> (\<forall>b \<in> set (fst (py_iter (h a))).
            repr n decode h (stack @ [a]) b = Some (stack @ [a], Inr (frag b)))"
  then have m: "sequence_repr_maker left' right' base' (int 8) (repr n decode h) h (stack @ [a]) a False
      = Some (stack @ [a], Inr (add_subclass_info
              (left' @ collapsed 8 (map frag (fst (py_iter (h a)))) @ right') (h a) base'))"
    by (intro sequence_repr_maker_collapsed) auto
  have "dispatch_repr decode (repr n decode h) h (stack @ [a]) a False
      = sequence_repr_maker left' right' base' 8 (repr n decode h) h (stack @ [a]) a False"
    using a by (auto simp: dispatch_repr_classify brackets_def split: category.splits)
  with m a show "repr (Suc n) decode h stack a
          = Some (stack, Inr (add_subclass_info
              (left' @ collapsed 8 (map frag (fst (py_iter (h a)))) @ right') (h a) base'))"
    by (intro repr_fresh) auto
next
  assume a: "classify h a = C_mapping \<and> a \<notin> set stack \<and> snd (py_items (h a)) = None
      \<and> (\<forall>(key, val) \<in> set (fst (py_items (h a))).
            repr n decode h (stack @ [a]) key = Some (stack @ [a], Inr (frag key))
            \<and> repr n decode h (stack @ [a]) val = Some (stack @ [a], Inr (frag val)))"
  then have m: "dict_repr (repr n decode h) h (stack @ [a]) a False (int 4 + 1)
      = Some (stack @ [a], Inr (add_subclass_info
              (''{'' @ collapsed 4 (map (\<lambda>(key, val). pair_fragment (frag key) (frag val))
                                     (fst (py_items (h a)))) @ ''}'') (h a) (Base T_dict)))"
    by (intro dict_repr_collapsed) auto
  have "dispatch_repr decode (repr n decode h) h (stack @ [a]) a False
      = dict_repr (repr n decode h) h (stack @ [a]) a False 5"
    using a by (auto simp: dispatch_repr_classify)
  with m a show "repr (Suc n) decode h stack a
          = Some (stack, Inr (add_subclass_info
              (''{'' @ collapsed 4 (map (\<lambda>(key, val). pair_fragment (frag key) (frag val))
                                     (fst (py_items (h a)))) @ ''}'') (h a) (Base T_dict)))"
    by (intro repr_fresh) auto
qed


text \<open>
  The mapping of five entries, which are not more than the limit 5, is rendered with the
  wrapper around its fifth entry; of the mapping of six entries four are outside the wrapper.
\<close>

theorem mapping_wrapper_counterexample:
  \<open>length (fst (py_items (heap_containers 9))) = 5 \<and>
   debug_repr 2 (\<lambda>s. s) heap_containers 9
     = Some ([], Inr (''{'' @ entry_fragment ''1'' @ '', '' @ entry_fragment ''2'' @ '', ''
          @ entry_fragment ''3'' @ '', '' @ entry_fragment ''4'' @ '', ''
          @ ''<span class="extended">'' @ entry_fragment ''5'' @ ''</span>'' @ ''}'')) \<and>
   length (fst (py_items (heap_containers 10))) = 6 \<and>
   debug_repr 2 (\<lambda>s. s) heap_containers 10
     = Some ([], Inr (''{'' @ entry_fragment ''1'' @ '', '' @ entry_fragment ''2'' @ '', ''
          @ entry_fragment ''3'' @ '', '' @ entry_fragment ''4'' @ '', ''
          @ ''<span class="extended">'' @ entry_fragment ''5'' @ '', '' @ entry_fragment ''6''
          @ ''</span>'' @ ''}''))\<close>
  by code_simp

text \<open>
  The list of ten elements: eight, then two inside the wrapper. The mapping of five entries:
  four, then one inside the wrapper.
\<close>

theorem extended_wrapper_witness:
  \<open>repr (Suc 1) (\<lambda>s. s) heap_containers [] 1
     = Some ([], Inr (''['' @ join '', '' (replicate 8 (number_fragment ''7'')) @ '', ''
          @ ''<span class="extended">'' @ join '', '' (replicate 2 (number_fragment ''7''))
          @ ''</span>'' @ '']'')) \<and>
   repr (Suc 1) (\<lambda>s. s) heap_containers [] 9
     = Some ([], Inr (''{'' @ join '', '' (map entry_fragment [''1'', ''2'', ''3'', ''4'']) @ '', ''
          @ ''<span class="extended">'' @ entry_fragment ''5'' @ ''</span>'' @ ''}'')) \<and>
   sequence_repr_maker ''['' '']'' (Base T_list) (int 8) (repr 1 (\<lambda>s. s) heap_containers)
       heap_containers [] 1 False
     = Some ([], Inr (''['' @ join '', '' (replicate 8 (number_fragment ''7'')) @ '', ''
          @ ''<span class="extended">'' @ join '', '' (replicate 2 (number_fragment ''7''))
          @ ''</span>'' @ '']'')) \<and>
   dict_repr (repr 1 (\<lambda>s. s) heap_containers) heap_containers [] 9 False (int 4 + 1)
     = Some ([], Inr (''{'' @ join '', '' (map entry_fragment [''1'', ''2'', ''3'', ''4'']) @ '', ''
          @ ''<span class="extended">'' @ entry_fragment ''5'' @ ''</span>'' @ ''}''))\<close>
proof -
  let ?h = heap_containers
  let ?frag = "\<lambda>b. number_fragment (case py_repr (?h b) of Inr r \<Rightarrow> r | Inl e \<Rightarrow> [])"
  have l1: "brackets (classify ?h 1) = Some (''['', '']'', Base T_list)" by code_simp
  have l2: "snd (py_iter (?h 1)) = None" by code_simp
  have l3: "\<forall>b \<in> set (fst (py_iter (?h 1))).
      repr 1 (\<lambda>s. s) ?h ([] @ [1]) b = Some ([] @ [1], Inr (?frag b))" by code_simp
  have l3': "\<forall>b \<in> set (fst (py_iter (?h 1))).
      repr 1 (\<lambda>s. s) ?h [] b = Some ([], Inr (?frag b))" by code_simp
  have l4: \<open>add_subclass_info (''['' @ collapsed 8 (map ?frag (fst (py_iter (?h 1)))) @ '']'')
       (?h 1) (Base T_list)
     = ''['' @ join '', '' (replicate 8 (number_fragment ''7'')) @ '', ''
          @ ''<span class="extended">'' @ join '', '' (replicate 2 (number_fragment ''7''))
          @ ''</span>'' @ '']''\<close> by code_simp
  have d1: "classify ?h 9 = C_mapping" by code_simp
  have d2: "snd (py_items (?h 9)) = None" by code_simp
  have d3: "\<forall>(key, val) \<in> set (fst (py_items (?h 9))).
      repr 1 (\<lambda>s. s) ?h ([] @ [9]) key = Some ([] @ [9], Inr (?frag key))
      \<and> repr 1 (\<lambda>s. s) ?h ([] @ [9]) val = Some ([] @ [9], Inr (?frag val))" by code_simp
  have d3': "\<forall>(key, val) \<in> set (fst (py_items (?h 9))).
      repr 1 (\<lambda>s. s) ?h [] key = Some ([], Inr (?frag key))
      \<and> repr 1 (\<lambda>s. s) ?h [] val = Some ([], Inr (?frag val))" by code_simp
  have d4: \<open>add_subclass_info
       (''{'' @ collapsed 4 (map (\<lambda>(key, val). pair_fragment (?frag key) (?frag val))
                              (fst (py_items (?h 9)))) @ ''}'') (?h 9) (Base T_dict)
     = ''{'' @ join '', '' (map entry_fragment [''1'', ''2'', ''3'', ''4'']) @ '', ''
          @ ''<span class="extended">'' @ entry_fragment ''5'' @ ''</span>'' @ ''}''\<close>
    by code_simp
  note w1 = extended_wrapper [where h = ?h and a = 1 and stack = "[]" and frag = ?frag
      and n = 1 and decode = "\<lambda>s. s" and left' = "''[''" and right' = "'']''"
      and base' = "Base T_list" and self_repr = "repr 1 (\<lambda>s. s) ?h" and k = 8
      and left = "''[''" and right = "'']''" and base = "Base T_list"]
  note w2 = extended_wrapper [where h = ?h and a = 9 and stack = "[]" and frag = ?frag
      and n = 1 and decode = "\<lambda>s. s" and self_repr = "repr 1 (\<lambda>s. s) ?h" and k = 4]
  have a: "repr (Suc 1) (\<lambda>s. s) ?h [] 1 = Some ([], Inr (add_subclass_info
      (''['' @ collapsed 8 (map ?frag (fst (py_iter (?h 1)))) @ '']'') (?h 1) (Base T_list)))"
    using w1 l1 l2 l3 by simp
  have b: "repr (Suc 1) (\<lambda>s. s) ?h [] 9 = Some ([], Inr (add_subclass_info
       (''{'' @ collapsed 4 (map (\<lambda>(key, val). pair_fragment (?frag key) (?frag val))
                              (fst (py_items (?h 9)))) @ ''}'') (?h 9) (Base T_dict)))"
    using w2 d1 d2 d3 by simp
  have c: "sequence_repr_maker ''['' '']'' (Base T_list) (int 8) (repr 1 (\<lambda>s. s) ?h) ?h [] 1 False
     = Some ([], Inr (add_subclass_info
      (''['' @ collapsed 8 (map ?frag (fst (py_iter (?h 1)))) @ '']'') (?h 1) (Base T_list)))"
    using w1 l2 l3' by blast
  have d: "dict_repr (repr 1 (\<lambda>s. s) ?h) ?h [] 9 False (int 4 + 1)
     = Some ([], Inr (add_subclass_info
       (''{'' @ collapsed 4 (map (\<lambda>(key, val). pair_fragment (?frag key) (?frag val))
                              (fst (py_items (?h 9)))) @ ''}'') (?h 9) (Base T_dict)))"
    using w2 d2 d3' by blast
  from a b c d show ?thesis
    unfolding l4 d4 by (intro conjI)
qed

subsection \<open>Rendering ends\<close>



















subsection \<open>Exceptions at the boundary of a value\<close>




subsection \<open>Values met again on the stack\<close>










subsection \<open>Object dumps\<close>



lemma render_object_dump_header:
  "render_object_dump h items title shown = Inr out \<Longrightarrow>
   \<exists>rows. out = ''<div class=box>'' @ [newline]
     @ ''  <h3>'' @ escape title @ ''</h3>'' @ [newline]
     @ ''  <pre class=repr>'' @ (case shown of None \<Rightarrow> [] | Some r \<Rightarrow> r) @ ''</pre>'' @ [newline]
     @ ''  <table>'' @ rows @ ''</table>'' @ [newline]
     @ ''</div>''"
  by (cases shown)
     (auto simp: render_object_dump_def OBJECT_DUMP_HTML_def Let_def split: sum.splits)










lemma contents_loop_all_text:
  "all_text h entries \<Longrightarrow> contents_loop self_repr h stack entries items \<noteq> Some (stack', Inr None)"
proof (induction entries arbitrary: stack items)
  case Nil
  show ?case by simp
next
  case (Cons entry rest)
  obtain k v where entry: "entry = (k, v)" by (cases entry)
  have "all_text h rest" using Cons.prems by (simp add: all_text_def)
  then show ?case
    using Cons.prems entry Cons.IH
    by (auto simp: all_text_def split: option.splits sum.splits)
qed

lemma dump_object_renders:
  "dump_object self_repr h stack a = Some (stack', Inr out) \<Longrightarrow>
   \<exists>items title shown. render_object_dump h items title shown = Inr out"
  unfolding dump_object_def Let_def
  by (auto split: if_splits option.splits sum.splits prod.splits)

lemma dump_object_contents_renders:
  assumes "dump_object self_repr h stack a = Some (stack', Inr out)"
    and "isinstance (h a) T_dict" and "all_text h (fst (py_items (h a)))"
  shows "\<exists>items. render_object_dump h items (''Contents of '' @ descriptor (h a)) None = Inr out"
  using assms contents_loop_all_text [OF assms(3)]
  unfolding dump_object_def Let_def
  by (auto split: if_splits option.splits sum.splits prod.splits)

lemma dump_locals_renders:
  "dump_locals self_repr h stack a = Some (stack', Inr out) \<Longrightarrow>
   \<exists>items. render_object_dump h items ''Local variables in frame'' None = Inr out"
  unfolding dump_locals_def Let_def
  by (auto split: if_splits option.splits sum.splits prod.splits)

text \<open>
  C10. What \<open>render_object_dump\<close> returns is the box with the escaped title, then
  one block \<open><pre class=repr>\<close> that holds the representation or nothing, then the
  table. What \<open>dump_object\<close> and \<open>dump_locals\<close> return is such a rendering;
  for \<open>dump_locals\<close> and for a mapping whose keys are all texts it is rendered
  without a representation, so that the block is there and is empty.
\<close>

theorem dump_header_block:
  "(render_object_dump h items title shown = Inr out \<longrightarrow>
      (\<exists>rows. out = ''<div class=box>'' @ [newline]
         @ ''  <h3>'' @ escape title @ ''</h3>'' @ [newline]
         @ ''  <pre class=repr>'' @ (case shown of None \<Rightarrow> [] | Some r \<Rightarrow> r) @ ''</pre>''
         @ [newline]
         @ ''  <table>'' @ rows @ ''</table>'' @ [newline]
         @ ''</div>'')) \<and>
   (dump_object self_repr h stack a = Some (stack', Inr out1) \<longrightarrow>
      (\<exists>items title shown. render_object_dump h items title shown = Inr out1)) \<and>
   (dump_object self_repr h stack a = Some (stack', Inr out1) \<and> isinstance (h a) T_dict
      \<and> all_text h (fst (py_items (h a))) \<longrightarrow>
      (\<exists>items. render_object_dump h items (''Contents of '' @ descriptor (h a)) None = Inr out1)) \<and>
   (dump_locals self_repr h stack a = Some (stack', Inr out2) \<longrightarrow>
      (\<exists>items. render_object_dump h items ''Local variables in frame'' None = Inr out2))"
proof (intro conjI impI)
  assume "render_object_dump h items title shown = Inr out"
  then show "\<exists>rows. out = ''<div class=box>'' @ [newline]
         @ ''  <h3>'' @ escape title @ ''</h3>'' @ [newline]
         @ ''  <pre class=repr>'' @ (case shown of None \<Rightarrow> [] | Some r \<Rightarrow> r) @ ''</pre>''
         @ [newline]
         @ ''  <table>'' @ rows @ ''</table>'' @ [newline]
         @ ''</div>''"
    by (rule render_object_dump_header)
next
  assume "dump_object self_repr h stack a = Some (stack', Inr out1)"
  then show "\<exists>items title shown. render_object_dump h items title shown = Inr out1"
    by (rule dump_object_renders)
next
  assume "dump_object self_repr h stack a = Some (stack', Inr out1) \<and> isinstance (h a) T_dict
      \<and> all_text h (fst (py_items (h a)))"
  then show "\<exists>items. render_object_dump h items (''Contents of '' @ descriptor (h a)) None = Inr out1"
    by (intro dump_object_contents_renders) auto
next
  assume "dump_locals self_repr h stack a = Some (stack', Inr out2)"
  then show "\<exists>items. render_object_dump h items ''Local variables in frame'' None = Inr out2"
    by (rule dump_locals_renders)
qed


text \<open>
  The dumps of the local variables \<open>{"x": 1}\<close>, of that mapping and of the object
  at 4, and an empty dump.
\<close>

theorem dump_header_block_witness:
  \<open>dump_locals (repr 1 (\<lambda>s. s) heap_dump) heap_dump [] 1
     = Some ([], Inr (''<div class=box>'' @ [newline]
         @ ''  <h3>Local variables in frame</h3>'' @ [newline]
         @ ''  <pre class=repr></pre>'' @ [newline]
         @ ''  <table><tr><th>x<td><pre class=repr><span class="number">1</span></pre></table>''
         @ [newline] @ ''</div>'')) \<and>
   dump_object (repr 1 (\<lambda>s. s) heap_dump) heap_dump [] 1
     = Some ([], Inr (''<div class=box>'' @ [newline]
         @ ''  <h3>Contents of dict object at 0x7f10</h3>'' @ [newline]
         @ ''  <pre class=repr></pre>'' @ [newline]
         @ ''  <table><tr><th>x<td><pre class=repr><span class="number">1</span></pre></table>''
         @ [newline] @ ''</div>'')) \<and>
   dump_object (repr 1 (\<lambda>s. s) heap_dump) heap_dump [] 4
     = Some ([], Inr (''<div class=box>'' @ [newline]
         @ ''  <h3>Details for __main__.P object at 0x7f20</h3>'' @ [newline]
         @ ''  <pre class=repr><span class="object">&lt;P&gt;</span></pre>'' @ [newline]
         @ ''  <table><tr><th>a<td><pre class=repr><span class="number">1</span></pre></table>''
         @ [newline] @ ''</div>'')) \<and>
   (\<exists>items. render_object_dump heap_dump items ''Local variables in frame'' None
      = Inr (''<div class=box>'' @ [newline]
         @ ''  <h3>Local variables in frame</h3>'' @ [newline]
         @ ''  <pre class=repr></pre>'' @ [newline]
         @ ''  <table><tr><th>x<td><pre class=repr><span class="number">1</span></pre></table>''
         @ [newline] @ ''</div>'')) \<and>
   (\<exists>items. render_object_dump heap_dump items (''Contents of '' @ descriptor (heap_dump 1)) None
      = Inr (''<div class=box>'' @ [newline]
         @ ''  <h3>Contents of dict object at 0x7f10</h3>'' @ [newline]
         @ ''  <pre class=repr></pre>'' @ [newline]
         @ ''  <table><tr><th>x<td><pre class=repr><span class="number">1</span></pre></table>''
         @ [newline] @ ''</div>'')) \<and>
   render_object_dump heap_dump [] ''a < b'' None
     = Inr (''<div class=box>'' @ [newline]
         @ ''  <h3>a &lt; b</h3>'' @ [newline]
         @ ''  <pre class=repr></pre>'' @ [newline]
         @ ''  <table><tr><td><em>Nothing</em></table>'' @ [newline]
         @ ''</div>'') \<and>
   (\<exists>rows. ''<div class=box>'' @ [newline]
         @ ''  <h3>a &lt; b</h3>'' @ [newline]
         @ ''  <pre class=repr></pre>'' @ [newline]
         @ ''  <table><tr><td><em>Nothing</em></table>'' @ [newline]
         @ ''</div>''
       = ''<div class=box>'' @ [newline]
         @ ''  <h3>'' @ escape ''a < b'' @ ''</h3>'' @ [newline]
         @ ''  <pre class=repr>'' @ (case None of None \<Rightarrow> [] | Some r \<Rightarrow> r) @ ''</pre>''
         @ [newline]
         @ ''  <table>'' @ rows @ ''</table>'' @ [newline]
         @ ''</div>'')\<close>
proof -
  let ?h = heap_dump
  let ?f = "repr 1 (\<lambda>s. s) ?h"
  have l: \<open>dump_locals ?f ?h [] 1
     = Some ([], Inr (''<div class=box>'' @ [newline]
         @ ''  <h3>Local variables in frame</h3>'' @ [newline]
         @ ''  <pre class=repr></pre>'' @ [newline]
         @ ''  <table><tr><th>x<td><pre class=repr><span class="number">1</span></pre></table>''
         @ [newline] @ ''</div>''))\<close> by code_simp
  have c: \<open>dump_object ?f ?h [] 1
     = Some ([], Inr (''<div class=box>'' @ [newline]
         @ ''  <h3>Contents of dict object at 0x7f10</h3>'' @ [newline]
         @ ''  <pre class=repr></pre>'' @ [newline]
         @ ''  <table><tr><th>x<td><pre class=repr><span class="number">1</span></pre></table>''
         @ [newline] @ ''</div>''))\<close> by code_simp
  have d: \<open>dump_object ?f ?h [] 4
     = Some ([], Inr (''<div class=box>'' @ [newline]
         @ ''  <h3>Details for __main__.P object at 0x7f20</h3>'' @ [newline]
         @ ''  <pre class=repr><span class="object">&lt;P&gt;</span></pre>'' @ [newline]
         @ ''  <table><tr><th>a<td><pre class=repr><span class="number">1</span></pre></table>''
         @ [newline] @ ''</div>''))\<close> by code_simp
  have i: "isinstance (?h 1) T_dict" by code_simp
  have t: "all_text ?h (fst (py_items (?h 1)))" by code_simp
  note w = dump_header_block [where h = ?h and self_repr = ?f and stack = "[]" and a = 1
      and stack' = "[]"]
  from w l have l': \<open>\<exists>items. render_object_dump heap_dump items ''Local variables in frame'' None
      = Inr (''<div class=box>'' @ [newline]
         @ ''  <h3>Local variables in frame</h3>'' @ [newline]
         @ ''  <pre class=repr></pre>'' @ [newline]
         @ ''  <table><tr><th>x<td><pre class=repr><span class="number">1</span></pre></table>''
         @ [newline] @ ''</div>'')\<close> by blast
  from w c i t have c': \<open>\<exists>items. render_object_dump heap_dump items
        (''Contents of '' @ descriptor (heap_dump 1)) None
      = Inr (''<div class=box>'' @ [newline]
         @ ''  <h3>Contents of dict object at 0x7f10</h3>'' @ [newline]
         @ ''  <pre class=repr></pre>'' @ [newline]
         @ ''  <table><tr><th>x<td><pre class=repr><span class="number">1</span></pre></table>''
         @ [newline] @ ''</div>'')\<close> by blast
  have r: \<open>render_object_dump heap_dump [] ''a < b'' None
     = Inr (''<div class=box>'' @ [newline]
         @ ''  <h3>a &lt; b</h3>'' @ [newline]
         @ ''  <pre class=repr></pre>'' @ [newline]
         @ ''  <table><tr><td><em>Nothing</em></table>'' @ [newline]
         @ ''</div>'')\<close> by code_simp
  from dump_header_block [where h = ?h and items = "[]" and title = "''a < b''"
      and shown = None] r
  have r': \<open>\<exists>rows. ''<div class=box>'' @ [newline]
         @ ''  <h3>a &lt; b</h3>'' @ [newline]
         @ ''  <pre class=repr></pre>'' @ [newline]
         @ ''  <table><tr><td><em>Nothing</em></table>'' @ [newline]
         @ ''</div>''
       = ''<div class=box>'' @ [newline]
         @ ''  <h3>'' @ escape ''a < b'' @ ''</h3>'' @ [newline]
         @ ''  <pre class=repr>'' @ (case None of None \<Rightarrow> [] | Some r \<Rightarrow> r) @ ''</pre>''
         @ [newline]
         @ ''  <table>'' @ rows @ ''</table>'' @ [newline]
         @ ''</div>''\<close> by blast
  from l c d l' c' r r' show ?thesis by (intro conjI)
qed










end
